theory Spec2Isabelle
  imports Complex_Main "HOL-Library.Word" "HOL-Library.Sublist"
begin

unbundle bit_operations_syntax

section \<open>Data model (dqn.hpp)\<close>

text \<open>
  A frame is a \<^verbatim>\<open>std::array<uint8_t, kCroppedFrameDataSize>\<close> held through a shared
  pointer; the model keeps the bytes. An \<^verbatim>\<open>Action\<close> is an enum stored in four bytes.
  A transition is the tuple (frame, action, reward, optional next frame). The type of
  the reward is a parameter: the persistence code copies the four bytes of the
  \<^verbatim>\<open>float\<close> (there it is a \<open>32 word\<close>), the update code computes with its value
  (there it is a \<open>real\<close>).
\<close>

definition kCroppedFrameSize :: nat where
  "kCroppedFrameSize = 84"

definition kCroppedFrameDataSize :: nat where
  "kCroppedFrameDataSize = kCroppedFrameSize * kCroppedFrameSize"

definition kOutputCount :: int where
  "kOutputCount = 18"

type_synonym FrameData = "8 word list"

type_synonym Action = "32 word"

type_synonym 'r Transition = "FrameData \<times> Action \<times> 'r \<times> FrameData option"

type_synonym 'r Episode = "'r Transition list"

type_synonym 'r ReplayMemory = "'r Episode list"

text \<open>\<^verbatim>\<open>std::get<0>\<close> to \<^verbatim>\<open>std::get<3>\<close> of a transition.\<close>

definition get0 :: "'r Transition \<Rightarrow> FrameData" where
  "get0 t = fst t"

definition get1 :: "'r Transition \<Rightarrow> Action" where
  "get1 t = fst (snd t)"

definition get2 :: "'r Transition \<Rightarrow> 'r" where
  "get2 t = fst (snd (snd t))"

definition get3 :: "'r Transition \<Rightarrow> FrameData option" where
  "get3 t = snd (snd (snd t))"

text \<open>
  What ends a call other than a return: a failed glog \<^verbatim>\<open>CHECK\<close> (the process aborts),
  a C++ exception leaving the function, and behaviour the language leaves undefined
  (\<^verbatim>\<open>front()\<close> of an empty deque, an index outside a vector, a distribution whose
  bounds are reversed, the read of an uninitialised variable).
\<close>

datatype error =
    CheckFailed
  | LengthError
  | OutOfRangeError
  | InvalidArgument
  | UndefinedBehaviour

text \<open>The value an \<^verbatim>\<open>int\<close> holds after a conversion from a wider type.\<close>

definition to_int32 :: "int \<Rightarrow> int" where
  "to_int32 x = (x + 2 ^ 31) mod 2 ^ 32 - 2 ^ 31"

text \<open>The fields of \<^verbatim>\<open>class DQN\<close> that hold the replay memory.\<close>

record 'r DQN =
  replay_memory_capacity :: int
  replay_memory_size :: int
  replay_memory :: "'r ReplayMemory"

text \<open>The constructor: an empty memory, \<^verbatim>\<open>replay_memory_size_(0)\<close>.\<close>

definition DQN_new :: "int \<Rightarrow> 'r DQN" where
  "DQN_new replay_memory_capacity0 =
     \<lparr>replay_memory_capacity = replay_memory_capacity0,
      replay_memory_size = 0,
      replay_memory = []\<rparr>"

definition memory_episodes :: "('r, 'z) DQN_scheme \<Rightarrow> int" where
  "memory_episodes s = int (length (replay_memory s))"

definition memory_size :: "('r, 'z) DQN_scheme \<Rightarrow> int" where
  "memory_size s = replay_memory_size s"

text \<open>The sum of the lengths of the stored episodes.\<close>

definition stored_transitions :: "'r ReplayMemory \<Rightarrow> int" where
  "stored_transitions m = (\<Sum>e\<leftarrow>m. int (length e))"

section \<open>RememberEpisode\<close>

text \<open>
  \<^verbatim>\<open>
  while (replay_memory_size_ >= replay_memory_capacity_) {
    replay_memory_size_ -= replay_memory_.front().size();
    replay_memory_.pop_front();
  }
  \<close>
  The loop, on the counter and the deque. \<^verbatim>\<open>front()\<close> of an empty deque is undefined.
  The subtraction is done in \<^verbatim>\<open>size_t\<close> and converted back to \<^verbatim>\<open>int\<close>.
\<close>

fun evict :: "int \<Rightarrow> int \<Rightarrow> 'r ReplayMemory \<Rightarrow> error + (int \<times> 'r ReplayMemory)" where
  "evict cap sz [] = (if sz \<ge> cap then Inl UndefinedBehaviour else Inr (sz, []))"
| "evict cap sz (e # es) =
     (if sz \<ge> cap then evict cap (to_int32 (sz - int (length e))) es
      else Inr (sz, e # es))"

definition RememberEpisode ::
  "'r Episode \<Rightarrow> ('r, 'z) DQN_scheme \<Rightarrow> error + ('r, 'z) DQN_scheme" where
  "RememberEpisode episode s =
     (case evict (replay_memory_capacity s)
             (to_int32 (replay_memory_size s + int (length episode)))
             (replay_memory s @ [episode]) of
        Inl e \<Rightarrow> Inl e
      | Inr (sz, m) \<Rightarrow> Inr (s\<lparr>replay_memory_size := sz, replay_memory := m\<rparr>))"

text \<open>A sequence of calls; the first one that does not return ends the run.\<close>

fun RememberEpisodes ::
  "'r Episode list \<Rightarrow> ('r, 'z) DQN_scheme \<Rightarrow> error + ('r, 'z) DQN_scheme" where
  "RememberEpisodes [] s = Inr s"
| "RememberEpisodes (episode # rest) s =
     (case RememberEpisode episode s of
        Inl e \<Rightarrow> Inl e
      | Inr s' \<Rightarrow> RememberEpisodes rest s')"

section \<open>Properties of RememberEpisode\<close>

lemma to_int32_id: "- (2 ^ 31) \<le> x \<Longrightarrow> x < 2 ^ 31 \<Longrightarrow> to_int32 x = x"
  by (simp add: to_int32_def)

lemma stored_transitions_nonneg: "0 \<le> stored_transitions m"
  by (induction m) (simp_all add: stored_transitions_def)

lemma stored_transitions_Cons:
  "stored_transitions (e # es) = int (length e) + stored_transitions es"
  by (simp add: stored_transitions_def)

lemma stored_transitions_append:
  "stored_transitions (m @ m') = stored_transitions m + stored_transitions m'"
  by (simp add: stored_transitions_def)

lemma evict_invariant:
  "0 < cap \<Longrightarrow> sz = stored_transitions m \<Longrightarrow> sz < 2 ^ 31 \<Longrightarrow>
   \<exists>sz' m'. evict cap sz m = Inr (sz', m') \<and> sz' = stored_transitions m' \<and> sz' < cap
     \<and> suffix m' m"
proof (induction m arbitrary: sz)
  case Nil
  then show ?case by (simp add: stored_transitions_def)
next
  case (Cons e es)
  show ?case
  proof (cases "sz \<ge> cap")
    case False
    then show ?thesis using Cons.prems by simp
  next
    case True
    have nn: "0 \<le> stored_transitions es" by (rule stored_transitions_nonneg)
    have eq: "sz - int (length e) = stored_transitions es"
      using Cons.prems(2) by (simp add: stored_transitions_Cons)
    have small: "stored_transitions es < 2 ^ 31"
      using Cons.prems(2,3) by (simp add: stored_transitions_Cons)
    have w: "to_int32 (sz - int (length e)) = stored_transitions es"
      unfolding eq using nn small by (intro to_int32_id) simp_all
    obtain sz' m' where r: "evict cap (stored_transitions es) es = Inr (sz', m')"
        "sz' = stored_transitions m'" "sz' < cap" "suffix m' es"
      using Cons.IH [OF Cons.prems(1) refl small] by blast
    show ?thesis using True r w by (auto simp: suffix_Cons)
  qed
qed

lemma RememberEpisode_invariant:
  assumes "0 < replay_memory_capacity s"
    and "replay_memory_size s = stored_transitions (replay_memory s)"
    and "stored_transitions (replay_memory s) + int (length episode) < 2 ^ 31"
  shows "\<exists>s'. RememberEpisode episode s = Inr s'
           \<and> replay_memory_capacity s' = replay_memory_capacity s
           \<and> replay_memory_size s' = stored_transitions (replay_memory s')
           \<and> replay_memory_size s' < replay_memory_capacity s
           \<and> suffix (replay_memory s') (replay_memory s @ [episode])"
proof -
  let ?m = "replay_memory s @ [episode]"
  have tot: "stored_transitions ?m = stored_transitions (replay_memory s) + int (length episode)"
    by (simp add: stored_transitions_append stored_transitions_Cons stored_transitions_def)
  have nn: "0 \<le> stored_transitions ?m" by (rule stored_transitions_nonneg)
  have w: "to_int32 (replay_memory_size s + int (length episode)) = stored_transitions ?m"
    using assms(2,3) nn tot by (simp add: to_int32_id)
  have "stored_transitions ?m < 2 ^ 31" using assms(3) tot by simp
  from evict_invariant [OF assms(1) refl this]
  obtain sz' m' where r: "evict (replay_memory_capacity s) (stored_transitions ?m) ?m = Inr (sz', m')"
      "sz' = stored_transitions m'" "sz' < replay_memory_capacity s" "suffix m' ?m"
    by blast
  show ?thesis using r w by (simp add: RememberEpisode_def)
qed

lemma RememberEpisodes_invariant:
  assumes "0 < replay_memory_capacity s"
    and "replay_memory_size s = stored_transitions (replay_memory s)"
    and "replay_memory_size s < replay_memory_capacity s"
    and "\<forall>e \<in> set episodes. replay_memory_capacity s + int (length e) \<le> 2 ^ 31"
  shows "\<exists>s'. RememberEpisodes episodes s = Inr s'
           \<and> replay_memory_capacity s' = replay_memory_capacity s
           \<and> replay_memory_size s' = stored_transitions (replay_memory s')
           \<and> replay_memory_size s' < replay_memory_capacity s"
  using assms
proof (induction episodes arbitrary: s)
  case Nil
  then show ?case by simp
next
  case (Cons e es)
  have "stored_transitions (replay_memory s) + int (length e) < 2 ^ 31"
    using Cons.prems by simp
  from RememberEpisode_invariant [OF Cons.prems(1,2) this]
  obtain s1 where s1: "RememberEpisode e s = Inr s1"
      "replay_memory_capacity s1 = replay_memory_capacity s"
      "replay_memory_size s1 = stored_transitions (replay_memory s1)"
      "replay_memory_size s1 < replay_memory_capacity s"
    by blast
  have "\<exists>s'. RememberEpisodes es s1 = Inr s'
           \<and> replay_memory_capacity s' = replay_memory_capacity s1
           \<and> replay_memory_size s' = stored_transitions (replay_memory s')
           \<and> replay_memory_size s' < replay_memory_capacity s1"
    using Cons.prems s1 by (intro Cons.IH) simp_all
  then show ?case using s1 by simp
qed

text \<open>
  C1 (as amended). For every capacity above zero and every sequence of episodes (each
  short enough for the \<^verbatim>\<open>int\<close> counter: capacity plus length at most \<open>2 ^ 31\<close>), every
  call of \<^verbatim>\<open>RememberEpisode\<close> in the sequence returns, and after each of them the
  transition counter is at most the capacity and equals the sum of the lengths of the
  stored episodes.
\<close>

theorem RememberEpisode_counter_bounded:
  assumes "0 < cap"
    and "\<forall>e \<in> set episodes. cap + int (length e) \<le> 2 ^ 31"
    and "k \<le> length episodes"
  shows "\<exists>s'. RememberEpisodes (take k episodes) (DQN_new cap) = Inr s'
           \<and> replay_memory_size s' \<le> cap
           \<and> replay_memory_size s' = stored_transitions (replay_memory s')"
proof -
  let ?s = "DQN_new cap :: 'a DQN"
  have "\<forall>e \<in> set (take k episodes). replay_memory_capacity ?s + int (length e) \<le> 2 ^ 31"
    using assms(2) by (auto simp: DQN_new_def dest: in_set_takeD)
  moreover have "0 < replay_memory_capacity ?s"
    "replay_memory_size ?s = stored_transitions (replay_memory ?s)"
    "replay_memory_size ?s < replay_memory_capacity ?s"
    using assms(1) by (simp_all add: DQN_new_def stored_transitions_def)
  ultimately have "\<exists>s'. RememberEpisodes (take k episodes) ?s = Inr s'
           \<and> replay_memory_capacity s' = replay_memory_capacity ?s
           \<and> replay_memory_size s' = stored_transitions (replay_memory s')
           \<and> replay_memory_size s' < replay_memory_capacity ?s"
    by (intro RememberEpisodes_invariant) simp_all
  then show ?thesis by (auto simp: DQN_new_def)
qed

text \<open>
  The scenario of the specification: capacity 10 and three episodes of length 4.
\<close>

theorem RememberEpisode_counter_bounded_witness:
  "\<exists>s'. RememberEpisodes
          (take 3 [replicate 4 ([], 0, 0 :: real, None),
                   replicate 4 ([], 1, 0, None),
                   replicate 4 ([], 2, 0, None)]) (DQN_new 10) = Inr s'
        \<and> replay_memory_size s' \<le> 10
        \<and> replay_memory_size s' = stored_transitions (replay_memory s')"
  by (rule RememberEpisode_counter_bounded) simp_all

text \<open>
  C1 as stated fails at capacity 0: the loop empties the deque, the counter is 0, the
  test \<^verbatim>\<open>0 >= 0\<close> holds and \<^verbatim>\<open>front()\<close> is called on the empty deque.
\<close>

theorem RememberEpisode_capacity_zero_counterexample:
  "RememberEpisodes [[([], 0, 0 :: real, None)]] (DQN_new 0) = Inl UndefinedBehaviour"
  by (simp add: RememberEpisode_def DQN_new_def to_int32_def)

section \<open>The replay-memory file\<close>

text \<open>
  The file is the stream of bytes under the gzip filter. An \<^verbatim>\<open>int\<close>, an \<^verbatim>\<open>Action\<close> and a
  \<^verbatim>\<open>float\<close> are written as their four bytes in memory, least significant first; a reward
  is kept as the 32 bits of its \<^verbatim>\<open>float\<close>.
\<close>

definition bytes_of_word32 :: "32 word \<Rightarrow> 8 word list" where
  "bytes_of_word32 w =
     [ucast w, ucast (drop_bit 8 w), ucast (drop_bit 16 w), ucast (drop_bit 24 w)]"

fun word32_of_bytes :: "8 word list \<Rightarrow> 32 word" where
  "word32_of_bytes [a, b, c, d] =
     ucast a OR push_bit 8 (ucast b) OR push_bit 16 (ucast c) OR push_bit 24 (ucast d)"
| "word32_of_bytes bs = 0"

definition int32_bytes :: "int \<Rightarrow> 8 word list" where
  "int32_bytes x = bytes_of_word32 (word_of_int x)"

definition int32_of_bytes :: "8 word list \<Rightarrow> int" where
  "int32_of_bytes bs = sint (word32_of_bytes bs)"

text \<open>
  The three \<^verbatim>\<open>out.write\<close> of one transition: the frame, the action, the reward. The
  next frame is not written.
\<close>

definition transition_bytes :: "32 word Transition \<Rightarrow> 8 word list" where
  "transition_bytes t =
     (case t of (frame, action, reward, next_frame) \<Rightarrow>
        frame @ bytes_of_word32 action @ bytes_of_word32 reward)"

text \<open>
  \<^verbatim>\<open>SnapshotReplayMemory\<close>: the number of episodes, the length of every episode, then the
  transitions of every episode.
\<close>

definition SnapshotReplayMemory :: "(32 word, 'z) DQN_scheme \<Rightarrow> 8 word list" where
  "SnapshotReplayMemory s =
     int32_bytes (int (length (replay_memory s)))
     @ concat (map (\<lambda>ep. int32_bytes (int (length ep))) (replay_memory s))
     @ concat (map (\<lambda>ep. concat (map transition_bytes ep)) (replay_memory s))"

text \<open>
  An input stream: the bytes left and its state. \<^verbatim>\<open>in.read(p, n)\<close> on a stream that is
  not good leaves the target as it was; on a good stream with fewer than \<open>n\<close> bytes left
  it stores the bytes there are, keeps the rest of the target and sets the failure
  state. \<^verbatim>\<open>LoadReplayMemory\<close> never looks at the state.
\<close>

record istream =
  bytes :: "8 word list"
  good :: bool

definition stream_read :: "nat \<Rightarrow> 8 word list \<Rightarrow> istream \<Rightarrow> 8 word list \<times> istream" where
  "stream_read n old ins =
     (if \<not> good ins then (old, ins)
      else if n \<le> length (bytes ins)
        then (take n (bytes ins), ins\<lparr>bytes := drop n (bytes ins)\<rparr>)
      else (bytes ins @ drop (length (bytes ins)) old, \<lparr>bytes = [], good = False\<rparr>))"

text \<open>
  \<^verbatim>\<open>int ep_len; in.read((char*)&ep_len, sizeof(int));\<close> the variable has no value when
  the read stores fewer than four bytes, and using it is undefined.
\<close>

definition read_int_uninitialised :: "istream \<Rightarrow> error + (int \<times> istream)" where
  "read_int_uninitialised ins =
     (if good ins \<and> 4 \<le> length (bytes ins)
      then Inr (int32_of_bytes (take 4 (bytes ins)), ins\<lparr>bytes := drop 4 (bytes ins)\<rparr>)
      else Inl UndefinedBehaviour)"

text \<open>
  \<^verbatim>\<open>replay_memory_.clear(); replay_memory_size_ = 0;\<close>
\<close>

definition ClearReplayMemory :: "('r, 'z) DQN_scheme \<Rightarrow> ('r, 'z) DQN_scheme" where
  "ClearReplayMemory s = s\<lparr>replay_memory := [], replay_memory_size := 0\<rparr>"

text \<open>
  The transition that \<^verbatim>\<open>resize\<close> puts in a new slot: a null frame pointer, action 0,
  reward 0, no next frame.
\<close>

definition default_transition :: "32 word Transition" where
  "default_transition = ([], 0, 0, None)"

text \<open>
  The first loop of \<^verbatim>\<open>LoadReplayMemory\<close>: \<^verbatim>\<open>replay_memory_[i].resize(ep_len)\<close>, which throws
  \<^verbatim>\<open>std::length_error\<close> for a negative length converted to \<^verbatim>\<open>size_t\<close>, and
  \<^verbatim>\<open>replay_memory_size_ += ep_len\<close>.
\<close>

fun read_lengths ::
  "nat \<Rightarrow> istream \<Rightarrow> int \<Rightarrow> error + (32 word Episode list \<times> int \<times> istream)" where
  "read_lengths 0 ins sz = Inr ([], sz, ins)"
| "read_lengths (Suc n) ins sz =
     (case read_int_uninitialised ins of
        Inl e \<Rightarrow> Inl e
      | Inr (ep_len, ins1) \<Rightarrow>
          if ep_len < 0 then Inl LengthError
          else (case read_lengths n ins1 (to_int32 (sz + ep_len)) of
                  Inl e \<Rightarrow> Inl e
                | Inr (eps, sz', ins') \<Rightarrow>
                    Inr (replicate (nat ep_len) default_transition # eps, sz', ins')))"

text \<open>
  The loop over \<open>j\<close> of the second loop: a fresh zero frame is read and stored in slot
  \<open>j\<close>, and as the next frame of slot \<open>j - 1\<close>; the action and the reward are read into
  the slot. The statement \<^verbatim>\<open>std::get<3>(t) == boost::none;\<close> is a comparison and changes
  nothing.
\<close>

fun load_transitions ::
  "nat \<Rightarrow> nat \<Rightarrow> 32 word Episode \<Rightarrow> istream \<Rightarrow> 32 word Episode \<times> istream" where
  "load_transitions 0 j ep ins = (ep, ins)"
| "load_transitions (Suc n) j ep ins =
     (case stream_read kCroppedFrameDataSize (replicate kCroppedFrameDataSize 0) ins of
        (frame, ins1) \<Rightarrow>
          let ep1 = (if j > 0
                     then (case ep ! (j - 1) of (f, a, r, nx) \<Rightarrow> ep[j - 1 := (f, a, r, Some frame)])
                     else ep)
          in (case ep1 ! j of (f0, a0, r0, nx0) \<Rightarrow>
                (case stream_read 4 (bytes_of_word32 a0) ins1 of
                   (ab, ins2) \<Rightarrow>
                     (case stream_read 4 (bytes_of_word32 r0) ins2 of
                        (rb, ins3) \<Rightarrow>
                          load_transitions n (Suc j)
                            (ep1[j := (frame, word32_of_bytes ab, word32_of_bytes rb, nx0)])
                            ins3))))"

text \<open>
  The second loop of \<^verbatim>\<open>LoadReplayMemory\<close>, over the episodes.
\<close>

fun load_episodes :: "32 word Episode list \<Rightarrow> istream \<Rightarrow> 32 word Episode list \<times> istream" where
  "load_episodes [] ins = ([], ins)"
| "load_episodes (ep # eps) ins =
     (case load_transitions (length ep) 0 ep ins of
        (ep', ins1) \<Rightarrow>
          (case load_episodes eps ins1 of
             (eps', ins2) \<Rightarrow> (ep' # eps', ins2)))"

text \<open>
  \<^verbatim>\<open>LoadReplayMemory\<close>: \<^verbatim>\<open>num_episodes\<close> starts as \<^verbatim>\<open>memory_size()\<close> of the cleared
  memory; \<^verbatim>\<open>replay_memory_.resize(num_episodes)\<close> throws for a negative number.
\<close>

definition LoadReplayMemory ::
  "8 word list \<Rightarrow> (32 word, 'z) DQN_scheme \<Rightarrow> error + (32 word, 'z) DQN_scheme" where
  "LoadReplayMemory file s0 =
     (let s = ClearReplayMemory s0 in
      case stream_read 4 (int32_bytes (memory_size s)) \<lparr>bytes = file, good = True\<rparr> of
        (nb, ins1) \<Rightarrow>
          let num_episodes = int32_of_bytes nb in
          if num_episodes < 0 then Inl LengthError
          else (case read_lengths (nat num_episodes) ins1 (replay_memory_size s) of
                  Inl e \<Rightarrow> Inl e
                | Inr (eps, sz, ins2) \<Rightarrow>
                    Inr (s\<lparr>replay_memory_size := sz,
                           replay_memory := fst (load_episodes eps ins2)\<rparr>)))"

lemma word32_roundtrip: "word32_of_bytes (bytes_of_word32 w) = w"
  unfolding bytes_of_word32_def word32_of_bytes.simps
proof (rule bit_word_eqI)
  fix n assume "n < LENGTH(32)"
  then consider "n < 8" | "8 \<le> n" "n < 16" | "16 \<le> n" "n < 24" | "24 \<le> n" "n < 32"
    by fastforce
  then show "bit (ucast (ucast w :: 8 word) OR push_bit 8 (ucast (ucast (drop_bit 8 w) :: 8 word))
        OR push_bit 16 (ucast (ucast (drop_bit 16 w) :: 8 word))
        OR push_bit 24 (ucast (ucast (drop_bit 24 w) :: 8 word)) :: 32 word) n = bit w n"
    by cases (auto simp: bit_simps)
qed

lemma length_bytes_of_word32: "length (bytes_of_word32 w) = 4"
  by (simp add: bytes_of_word32_def)

lemma int32_roundtrip:
  "- (2 ^ 31) \<le> x \<Longrightarrow> x < 2 ^ 31 \<Longrightarrow> int32_of_bytes (int32_bytes x) = x"
  by (simp add: int32_of_bytes_def int32_bytes_def word32_roundtrip sint_sbintrunc'
      signed_take_bit_int_eq_self)


text \<open>
  The episode with the next frame of every transition set to the frame of the
  following one, and none for the last.
\<close>

fun adjacent_links :: "'r Episode \<Rightarrow> 'r Episode" where
  "adjacent_links [] = []"
| "adjacent_links [(f, a, r, nx)] = [(f, a, r, None)]"
| "adjacent_links ((f, a, r, nx) # t # ts) = (f, a, r, Some (fst t)) # adjacent_links (t # ts)"

text \<open>
  What \<^verbatim>\<open>load_transitions\<close> has built after some transitions: \<^verbatim>\<open>linked pre ts\<close> appends the
  transitions \<open>ts\<close> to the part \<open>pre\<close>, each one giving its frame to the one before it.
\<close>

definition set_last_next :: "FrameData \<Rightarrow> 'r Episode \<Rightarrow> 'r Episode" where
  "set_last_next frame pre =
     (if pre = [] then []
      else butlast pre @ [case last pre of (f, a, r, nx) \<Rightarrow> (f, a, r, Some frame)])"

fun linked :: "'r Episode \<Rightarrow> 'r Episode \<Rightarrow> 'r Episode" where
  "linked pre [] = pre"
| "linked pre ((f, a, r, nx) # ts) = linked (set_last_next f pre @ [(f, a, r, None)]) ts"

lemma stream_read_exact:
  "good ins \<Longrightarrow> bytes ins = xs @ rest \<Longrightarrow> length xs = n \<Longrightarrow>
   stream_read n old ins = (xs, ins\<lparr>bytes := rest\<rparr>)"
  by (simp add: stream_read_def)

lemma nth_before_append: "pre \<noteq> [] \<Longrightarrow> (pre @ ys) ! (length pre - Suc 0) = last pre"
  by (simp add: nth_append last_conv_nth)

lemma update_before_append:
  "pre \<noteq> [] \<Longrightarrow> (pre @ ys)[length pre - Suc 0 := v] = butlast pre @ [v] @ ys"
  by (induction pre) (auto simp: list_update_append split: nat.splits)

lemma length_set_last_next: "length (set_last_next f pre) = length pre"
  by (simp add: set_last_next_def)

lemma load_transitions_roundtrip:
  assumes "\<forall>t \<in> set ts. length (fst t) = kCroppedFrameDataSize"
  shows "load_transitions (length ts) (length pre)
           (pre @ replicate (length ts) default_transition)
           \<lparr>bytes = concat (map transition_bytes ts) @ rest, good = True\<rparr>
         = (linked pre ts, \<lparr>bytes = rest, good = True\<rparr>)"
  using assms
proof (induction ts arbitrary: pre)
  case Nil
  then show ?case by simp
next
  case (Cons t ts)
  obtain f a r nx where t: "t = (f, a, r, nx)" by (cases t)
  have lf: "length f = kCroppedFrameDataSize" using Cons.prems t by simp
  let ?d = "replicate (length ts) default_transition"
  let ?tail = "concat (map transition_bytes ts) @ rest"
  let ?pre1 = "set_last_next f pre"
  have r1: "stream_read kCroppedFrameDataSize (replicate kCroppedFrameDataSize 0)
              \<lparr>bytes = concat (map transition_bytes (t # ts)) @ rest, good = True\<rparr>
            = (f, \<lparr>bytes = bytes_of_word32 a @ bytes_of_word32 r @ ?tail, good = True\<rparr>)"
    using lf by (simp add: stream_read_exact [where xs = f] t transition_bytes_def)
  have r2: "stream_read 4 old \<lparr>bytes = bytes_of_word32 a @ bytes_of_word32 r @ ?tail, good = True\<rparr>
            = (bytes_of_word32 a, \<lparr>bytes = bytes_of_word32 r @ ?tail, good = True\<rparr>)" for old
    by (simp add: stream_read_exact [where xs = "bytes_of_word32 a"] length_bytes_of_word32)
  have r3: "stream_read 4 old \<lparr>bytes = bytes_of_word32 r @ ?tail, good = True\<rparr>
            = (bytes_of_word32 r, \<lparr>bytes = ?tail, good = True\<rparr>)" for old
    by (simp add: stream_read_exact [where xs = "bytes_of_word32 r"] length_bytes_of_word32)
  have ep1: "(if length pre > 0
              then (case (pre @ default_transition # ?d) ! (length pre - 1) of
                      (f', a', r', nx') \<Rightarrow>
                        (pre @ default_transition # ?d)[length pre - 1 := (f', a', r', Some f)])
              else pre @ default_transition # ?d)
             = ?pre1 @ default_transition # ?d"
    by (cases "pre = []")
      (simp_all add: set_last_next_def nth_before_append update_before_append split: prod.splits)
  have at: "(?pre1 @ default_transition # ?d) ! length pre = default_transition"
    by (metis length_set_last_next nth_append_length)
  have up: "(?pre1 @ default_transition # ?d)[length pre := v] = (?pre1 @ [v]) @ ?d" for v
    by (metis append.assoc append_Cons append_Nil length_set_last_next list_update_length)
  have IH: "load_transitions (length ts) (length (?pre1 @ [(f, a, r, None)]))
           ((?pre1 @ [(f, a, r, None)]) @ ?d)
           \<lparr>bytes = ?tail, good = True\<rparr>
         = (linked (?pre1 @ [(f, a, r, None)]) ts, \<lparr>bytes = rest, good = True\<rparr>)"
    using Cons.prems by (intro Cons.IH) simp
  have len: "length (?pre1 @ [(f, a, r, None)]) = Suc (length pre)"
    by (simp add: length_set_last_next)
  show ?case
    unfolding length_Cons replicate_Suc load_transitions.simps r1 prod.case Let_def ep1 at
    using IH
    by (simp add: default_transition_def r2 r3 up [unfolded default_transition_def]
        word32_roundtrip t len length_set_last_next del: replicate_Suc)
qed

lemma linked_adjacent:
  "linked pre ts = (if ts = [] then pre else set_last_next (fst (hd ts)) pre @ adjacent_links ts)"
proof (induction ts arbitrary: pre)
  case Nil
  then show ?case by simp
next
  case (Cons t ts)
  obtain f a r nx where t: "t = (f, a, r, nx)" by (cases t)
  show ?case
  proof (cases ts)
    case Nil
    then show ?thesis by (simp add: t)
  next
    case (Cons t' ts')
    then show ?thesis
      using Cons.IH [of "set_last_next f pre @ [(f, a, r, None)]"]
      by (simp add: t set_last_next_def)
  qed
qed


text \<open>
  The bytes of the episode lengths, as \<^verbatim>\<open>SnapshotReplayMemory\<close> writes them.
\<close>

definition header_bytes :: "nat list \<Rightarrow> 8 word list" where
  "header_bytes lens =
     int32_bytes (int (length lens)) @ concat (map (\<lambda>l. int32_bytes (int l)) lens)"

lemma length_int32_bytes: "length (int32_bytes x) = 4"
  by (simp add: int32_bytes_def length_bytes_of_word32)

lemma read_int_exact:
  "- (2 ^ 31) \<le> x \<Longrightarrow> x < 2 ^ 31 \<Longrightarrow>
   read_int_uninitialised \<lparr>bytes = int32_bytes x @ rest, good = True\<rparr>
     = Inr (x, \<lparr>bytes = rest, good = True\<rparr>)"
  by (simp add: read_int_uninitialised_def length_int32_bytes int32_roundtrip)

lemma read_lengths_header:
  assumes "\<forall>l \<in> set lens. int l < 2 ^ 31"
  shows "read_lengths (length lens)
           \<lparr>bytes = concat (map (\<lambda>l. int32_bytes (int l)) lens) @ rest, good = True\<rparr> sz
         = Inr (map (\<lambda>l. replicate l default_transition) lens,
                foldl (\<lambda>a l. to_int32 (a + int l)) sz lens,
                \<lparr>bytes = rest, good = True\<rparr>)"
  using assms
proof (induction lens arbitrary: sz)
  case Nil
  then show ?case by simp
next
  case (Cons l lens)
  have "read_int_uninitialised
          \<lparr>bytes = int32_bytes (int l) @ concat (map (\<lambda>l. int32_bytes (int l)) lens) @ rest,
           good = True\<rparr>
        = Inr (int l, \<lparr>bytes = concat (map (\<lambda>l. int32_bytes (int l)) lens) @ rest, good = True\<rparr>)"
    using Cons.prems by (intro read_int_exact) simp_all
  moreover have "read_lengths (length lens)
           \<lparr>bytes = concat (map (\<lambda>l. int32_bytes (int l)) lens) @ rest, good = True\<rparr>
           (to_int32 (sz + int l))
         = Inr (map (\<lambda>l. replicate l default_transition) lens,
                foldl (\<lambda>a l. to_int32 (a + int l)) (to_int32 (sz + int l)) lens,
                \<lparr>bytes = rest, good = True\<rparr>)"
    using Cons.prems by (intro Cons.IH) simp
  ultimately show ?case by simp
qed

lemma foldl_to_int32:
  "0 \<le> sz \<Longrightarrow> sz + (\<Sum>l\<leftarrow>lens. int l) < 2 ^ 31 \<Longrightarrow>
   foldl (\<lambda>a l. to_int32 (a + int l)) sz lens = sz + (\<Sum>l\<leftarrow>lens. int l)"
proof (induction lens arbitrary: sz)
  case Nil
  then show ?case by simp
next
  case (Cons l lens)
  have nn: "0 \<le> (\<Sum>l\<leftarrow>lens. int l)" by (induction lens) simp_all
  have "to_int32 (sz + int l) = sz + int l"
    using Cons.prems nn by (intro to_int32_id) simp_all
  moreover have "foldl (\<lambda>a l. to_int32 (a + int l)) (sz + int l) lens
      = (sz + int l) + (\<Sum>l\<leftarrow>lens. int l)"
    using Cons.prems by (intro Cons.IH) simp_all
  ultimately show ?case by simp
qed

lemma length_load_transitions: "length (fst (load_transitions n j ep ins)) = length ep"
  by (induction n arbitrary: j ep ins) (simp_all split: prod.splits)

lemma load_episodes_lengths: "map length (fst (load_episodes eps ins)) = map length eps"
proof (induction eps arbitrary: ins)
  case Nil
  then show ?case by simp
next
  case (Cons ep eps)
  obtain ep' ins1 where a: "load_transitions (length ep) 0 ep ins = (ep', ins1)"
    by (cases "load_transitions (length ep) 0 ep ins")
  obtain eps' ins2 where b: "load_episodes eps ins1 = (eps', ins2)"
    by (cases "load_episodes eps ins1")
  have "length ep' = length ep" using length_load_transitions [of "length ep" 0 ep ins] a by simp
  moreover have "map length eps' = map length eps" using Cons.IH [of ins1] b by simp
  ultimately show ?case using a b by simp
qed

lemma load_episodes_roundtrip:
  assumes "\<forall>e \<in> set mem. \<forall>t \<in> set e. length (fst t) = kCroppedFrameDataSize"
  shows "load_episodes (map (\<lambda>e. replicate (length e) default_transition) mem)
           \<lparr>bytes = concat (map (\<lambda>ep. concat (map transition_bytes ep)) mem) @ rest, good = True\<rparr>
         = (map adjacent_links mem, \<lparr>bytes = rest, good = True\<rparr>)"
  using assms
proof (induction mem)
  case Nil
  then show ?case by simp
next
  case (Cons e mem)
  have "load_transitions (length e) (length ([] :: 32 word Episode))
           ([] @ replicate (length e) default_transition)
           \<lparr>bytes = concat (map transition_bytes e)
              @ (concat (map (\<lambda>ep. concat (map transition_bytes ep)) mem) @ rest), good = True\<rparr>
         = (linked [] e,
            \<lparr>bytes = concat (map (\<lambda>ep. concat (map transition_bytes ep)) mem) @ rest, good = True\<rparr>)"
    using Cons.prems by (intro load_transitions_roundtrip) simp
  moreover have "linked [] e = adjacent_links e"
    by (simp add: linked_adjacent set_last_next_def)
  moreover have "load_episodes (map (\<lambda>e. replicate (length e) default_transition) mem)
           \<lparr>bytes = concat (map (\<lambda>ep. concat (map transition_bytes ep)) mem) @ rest, good = True\<rparr>
         = (map adjacent_links mem, \<lparr>bytes = rest, good = True\<rparr>)"
    using Cons.prems by (intro Cons.IH) simp
  ultimately show ?case by simp
qed

lemma LoadReplayMemory_header:
  assumes "int (length lens) < 2 ^ 31" and "\<forall>l \<in> set lens. int l < 2 ^ 31"
  shows "LoadReplayMemory (header_bytes lens @ rest) s
         = Inr (s\<lparr>replay_memory_size := foldl (\<lambda>a l. to_int32 (a + int l)) 0 lens,
                  replay_memory :=
                    fst (load_episodes (map (\<lambda>l. replicate l default_transition) lens)
                          \<lparr>bytes = rest, good = True\<rparr>)\<rparr>)"
proof -
  have r0: "stream_read 4 old \<lparr>bytes = header_bytes lens @ rest, good = True\<rparr>
      = (int32_bytes (int (length lens)),
         \<lparr>bytes = concat (map (\<lambda>l. int32_bytes (int l)) lens) @ rest, good = True\<rparr>)" for old
    by (simp add: stream_read_exact [where xs = "int32_bytes (int (length lens))"]
        header_bytes_def length_int32_bytes)
  have n: "int32_of_bytes (int32_bytes (int (length lens))) = int (length lens)"
    using assms(1) by (intro int32_roundtrip) simp_all
  show ?thesis
    unfolding LoadReplayMemory_def Let_def r0 prod.case n
    by (simp add: read_lengths_header [OF assms(2)] ClearReplayMemory_def)
qed

lemma Snapshot_header:
  "SnapshotReplayMemory s = header_bytes (map length (replay_memory s))
     @ concat (map (\<lambda>ep. concat (map transition_bytes ep)) (replay_memory s))"
  by (simp add: SnapshotReplayMemory_def header_bytes_def comp_def)

lemma length_adjacent_links: "length (adjacent_links e) = length e"
  by (induction e rule: adjacent_links.induct) simp_all

lemma nth_adjacent_links:
  "j < length e \<Longrightarrow>
   adjacent_links e ! j
     = (get0 (e ! j), get1 (e ! j), get2 (e ! j),
        if Suc j < length e then Some (get0 (e ! Suc j)) else None)"
proof (induction e arbitrary: j rule: adjacent_links.induct)
  case 1
  then show ?case by simp
next
  case (2 f a r nx)
  then show ?case by (simp add: get0_def get1_def get2_def)
next
  case (3 f a r nx t ts)
  show ?case
  proof (cases j)
    case 0
    then show ?thesis by (simp add: get0_def get1_def get2_def)
  next
    case (Suc k)
    then show ?thesis using 3 by simp
  qed
qed

lemma stored_transitions_sum: "stored_transitions m = (\<Sum>l\<leftarrow>map length m. int l)"
  by (simp add: stored_transitions_def comp_def)

text \<open>
  C4. Loading what \<^verbatim>\<open>SnapshotReplayMemory\<close> wrote gives back the same number of
  episodes, the same lengths and, at every position \<open>j\<close> of every episode \<open>i\<close>, the
  same frame bytes, action and reward; the next frame of the loaded transition is the
  frame of the following transition, and the last transition of an episode has none.
  The transition counter is the number of stored transitions. The frames have the size
  of \<^verbatim>\<open>FrameData\<close> and the counts fit an \<^verbatim>\<open>int\<close>.
\<close>

theorem Snapshot_Load_roundtrip:
  assumes "\<forall>e \<in> set (replay_memory s). \<forall>t \<in> set e. length (get0 t) = kCroppedFrameDataSize"
    and "int (length (replay_memory s)) < 2 ^ 31"
    and "stored_transitions (replay_memory s) < 2 ^ 31"
    and "i < length (replay_memory s)"
    and "j < length (replay_memory s ! i)"
  shows "\<exists>s'. LoadReplayMemory (SnapshotReplayMemory s) s1 = Inr s'
           \<and> length (replay_memory s') = length (replay_memory s)
           \<and> length (replay_memory s' ! i) = length (replay_memory s ! i)
           \<and> get0 (replay_memory s' ! i ! j) = get0 (replay_memory s ! i ! j)
           \<and> get1 (replay_memory s' ! i ! j) = get1 (replay_memory s ! i ! j)
           \<and> get2 (replay_memory s' ! i ! j) = get2 (replay_memory s ! i ! j)
           \<and> get3 (replay_memory s' ! i ! j)
               = (if Suc j < length (replay_memory s ! i)
                  then Some (get0 (replay_memory s ! i ! Suc j)) else None)
           \<and> replay_memory_size s' = stored_transitions (replay_memory s)"
proof -
  let ?m = "replay_memory s"
  let ?lens = "map length ?m"
  have nn: "0 \<le> stored_transitions es" for es :: "32 word ReplayMemory"
    by (rule stored_transitions_nonneg)
  have each: "\<forall>l \<in> set ?lens. int l < 2 ^ 31"
  proof
    fix l assume "l \<in> set ?lens"
    then obtain e where e: "e \<in> set ?m" "l = length e" by auto
    then obtain xs ys where "?m = xs @ e # ys" by (meson split_list)
    then have "stored_transitions ?m
        = stored_transitions xs + (int (length e) + stored_transitions ys)"
      by (simp add: stored_transitions_append stored_transitions_Cons)
    then show "int l < 2 ^ 31" using assms(3) nn [of xs] nn [of ys] e by linarith
  qed
  have len: "int (length ?lens) < 2 ^ 31" using assms(2) by simp
  have fr: "\<forall>e \<in> set ?m. \<forall>t \<in> set e. length (fst t) = kCroppedFrameDataSize"
    using assms(1) by (simp add: get0_def)
  have eps: "map (\<lambda>l. replicate l default_transition) ?lens
      = map (\<lambda>e. replicate (length e) default_transition) ?m"
    by simp
  have ld: "fst (load_episodes (map (\<lambda>l. replicate l default_transition) ?lens)
       \<lparr>bytes = concat (map (\<lambda>ep. concat (map transition_bytes ep)) ?m), good = True\<rparr>)
     = map adjacent_links ?m"
    unfolding eps using load_episodes_roundtrip [OF fr, of "[]"] by simp
  have cnt: "foldl (\<lambda>a l. to_int32 (a + int l)) 0 ?lens = stored_transitions ?m"
    using foldl_to_int32 [of 0 ?lens] assms(3) by (simp add: stored_transitions_sum)
  have L: "LoadReplayMemory (SnapshotReplayMemory s) s1
      = Inr (s1\<lparr>replay_memory_size := stored_transitions ?m,
                replay_memory := map adjacent_links ?m\<rparr>)"
    unfolding Snapshot_header LoadReplayMemory_header [OF len each] ld cnt ..
  have a: "adjacent_links (?m ! i) ! j
      = (get0 (?m ! i ! j), get1 (?m ! i ! j), get2 (?m ! i ! j),
         if Suc j < length (?m ! i) then Some (get0 (?m ! i ! Suc j)) else None)"
    using assms(5) by (rule nth_adjacent_links)
  show ?thesis
    unfolding L using assms(4,5)
    by (simp add: a length_adjacent_links get0_def get1_def get2_def get3_def)
qed

text \<open>
  A memory of one episode with two transitions.
\<close>

definition example_memory :: "32 word DQN" where
  "example_memory =
     \<lparr>replay_memory_capacity = 100,
      replay_memory_size = 2,
      replay_memory =
        [[(replicate kCroppedFrameDataSize 1, 3, 5, Some (replicate kCroppedFrameDataSize 2)),
          (replicate kCroppedFrameDataSize 2, 4, 6, None)]]\<rparr>"

text \<open>A memory of one episode with two transitions, written and loaded.\<close>

theorem Snapshot_Load_roundtrip_witness:
  "\<exists>s'. LoadReplayMemory (SnapshotReplayMemory example_memory) (DQN_new 100) = Inr s'
        \<and> length (replay_memory s') = 1
        \<and> length (replay_memory s' ! 0) = 2
        \<and> get0 (replay_memory s' ! 0 ! 0) = replicate kCroppedFrameDataSize 1
        \<and> get1 (replay_memory s' ! 0 ! 0) = 3
        \<and> get2 (replay_memory s' ! 0 ! 0) = 5
        \<and> get3 (replay_memory s' ! 0 ! 0) = Some (replicate kCroppedFrameDataSize 2)
        \<and> replay_memory_size s' = 2"
proof -
  have m: "replay_memory example_memory =
        [[(replicate kCroppedFrameDataSize 1, 3, 5, Some (replicate kCroppedFrameDataSize 2)),
          (replicate kCroppedFrameDataSize 2, 4, 6, None)]]"
    by (simp add: example_memory_def)
  have "\<exists>s'. LoadReplayMemory (SnapshotReplayMemory example_memory) (DQN_new 100) = Inr s'
           \<and> length (replay_memory s') = length (replay_memory example_memory)
           \<and> length (replay_memory s' ! 0) = length (replay_memory example_memory ! 0)
           \<and> get0 (replay_memory s' ! 0 ! 0) = get0 (replay_memory example_memory ! 0 ! 0)
           \<and> get1 (replay_memory s' ! 0 ! 0) = get1 (replay_memory example_memory ! 0 ! 0)
           \<and> get2 (replay_memory s' ! 0 ! 0) = get2 (replay_memory example_memory ! 0 ! 0)
           \<and> get3 (replay_memory s' ! 0 ! 0)
               = (if Suc 0 < length (replay_memory example_memory ! 0)
                  then Some (get0 (replay_memory example_memory ! 0 ! Suc 0)) else None)
           \<and> replay_memory_size s' = stored_transitions (replay_memory example_memory)"
    by (rule Snapshot_Load_roundtrip) (simp_all add: m get0_def stored_transitions_def)
  then show ?thesis
    by (simp add: m get0_def get1_def get2_def stored_transitions_def numeral_2_eq_2)
qed








text \<open>
  C10. \<^verbatim>\<open>LoadReplayMemory\<close> never looks at the capacity: after a load of a stream whose
  header announces the lengths \<open>lens\<close>, all the announced episodes are stored, the
  capacity is unchanged and the transition counter is the sum of the lengths, which may
  exceed the capacity. Only the next \<^verbatim>\<open>RememberEpisode\<close> evicts, and brings the counter
  below the capacity.
\<close>

theorem LoadReplayMemory_capacity_not_enforced:
  assumes "int (length lens) < 2 ^ 31" and "(\<Sum>l\<leftarrow>lens. int l) < 2 ^ 31"
  shows "\<exists>s'. LoadReplayMemory (header_bytes lens @ rest) s = Inr s'
           \<and> replay_memory_capacity s' = replay_memory_capacity s
           \<and> map length (replay_memory s') = lens
           \<and> replay_memory_size s' = (\<Sum>l\<leftarrow>lens. int l)
           \<and> replay_memory_size s' = stored_transitions (replay_memory s')
           \<and> (0 < replay_memory_capacity s \<and> (\<Sum>l\<leftarrow>lens. int l) + int (length episode) < 2 ^ 31
                \<longrightarrow> (\<exists>s''. RememberEpisode episode s' = Inr s''
                       \<and> replay_memory_size s'' < replay_memory_capacity s))"
proof -
  have nn: "0 \<le> (\<Sum>l\<leftarrow>ls. int l)" for ls :: "nat list" by (induction ls) simp_all
  have each: "\<forall>l \<in> set lens. int l < 2 ^ 31"
  proof
    fix l assume "l \<in> set lens"
    then obtain xs ys where "lens = xs @ l # ys" by (meson split_list)
    then have "(\<Sum>l\<leftarrow>lens. int l) = (\<Sum>l\<leftarrow>xs. int l) + (int l + (\<Sum>l\<leftarrow>ys. int l))" by simp
    then show "int l < 2 ^ 31" using assms(2) nn [of xs] nn [of ys] by linarith
  qed
  let ?s' = "s\<lparr>replay_memory_size := foldl (\<lambda>a l. to_int32 (a + int l)) 0 lens,
                replay_memory :=
                  fst (load_episodes (map (\<lambda>l. replicate l default_transition) lens)
                        \<lparr>bytes = rest, good = True\<rparr>)\<rparr>"
  have L: "LoadReplayMemory (header_bytes lens @ rest) s = Inr ?s'"
    by (rule LoadReplayMemory_header [OF assms(1) each])
  have cnt: "foldl (\<lambda>a l. to_int32 (a + int l)) 0 lens = (\<Sum>l\<leftarrow>lens. int l)"
    using foldl_to_int32 [of 0 lens] assms(2) by simp
  have lens: "map length (replay_memory ?s') = lens"
    by (simp add: load_episodes_lengths comp_def)
  have sz: "replay_memory_size ?s' = (\<Sum>l\<leftarrow>lens. int l)" using cnt by simp
  have st: "replay_memory_size ?s' = stored_transitions (replay_memory ?s')"
    unfolding stored_transitions_sum lens sz ..
  have nxt: "\<exists>s''. RememberEpisode episode ?s' = Inr s''
                \<and> replay_memory_size s'' < replay_memory_capacity s"
    if "0 < replay_memory_capacity s" "(\<Sum>l\<leftarrow>lens. int l) + int (length episode) < 2 ^ 31"
  proof -
    have "0 < replay_memory_capacity ?s'" using that(1) by simp
    moreover have "stored_transitions (replay_memory ?s') + int (length episode) < 2 ^ 31"
      using that(2) st sz by simp
    ultimately show ?thesis using RememberEpisode_invariant [OF _ st, of episode] by auto
  qed
  show ?thesis unfolding L using lens sz st nxt by auto
qed

text \<open>Two episodes of three transitions loaded into a memory of capacity 4.\<close>

theorem LoadReplayMemory_capacity_not_enforced_witness:
  "\<exists>s'. LoadReplayMemory (header_bytes [3, 3] @ []) (DQN_new 4) = Inr s'
        \<and> replay_memory_capacity s' = 4
        \<and> map length (replay_memory s') = [3, 3]
        \<and> replay_memory_size s' = 6
        \<and> (\<exists>s''. RememberEpisode [] s' = Inr s'' \<and> replay_memory_size s'' < 4)"
proof -
  have "\<exists>s'. LoadReplayMemory (header_bytes [3, 3] @ []) (DQN_new 4 :: 32 word DQN) = Inr s'
           \<and> replay_memory_capacity s' = replay_memory_capacity (DQN_new 4 :: 32 word DQN)
           \<and> map length (replay_memory s') = [3, 3]
           \<and> replay_memory_size s' = (\<Sum>l\<leftarrow>[3, 3]. int l)
           \<and> replay_memory_size s' = stored_transitions (replay_memory s')
           \<and> (0 < replay_memory_capacity (DQN_new 4 :: 32 word DQN)
                \<and> (\<Sum>l\<leftarrow>[3, 3]. int l) + int (length ([] :: 32 word Episode)) < 2 ^ 31
                \<longrightarrow> (\<exists>s''. RememberEpisode [] s' = Inr s''
                       \<and> replay_memory_size s'' < replay_memory_capacity (DQN_new 4 :: 32 word DQN)))"
    by (rule LoadReplayMemory_capacity_not_enforced) simp_all
  then show ?thesis by (auto simp: DQN_new_def)
qed

section \<open>Snapshot discovery (FindLatestSnapshot)\<close>






























section \<open>The networks and the staging buffers\<close>

text \<open>
  The caffe networks and the solver are a library outside the repository (the
  specification's ValueFunctionEngine); they are parameters of the model. A network is
  a state \<open>'n\<close> and the library is a record of functions on it: \<open>forward\<close> is \<^verbatim>\<open>InputDataIntoLayers\<close> followed by
  \<^verbatim>\<open>ForwardPrefilled\<close> on the frames of a batch and the continuation buffer, and gives
  the new state and the \<^verbatim>\<open>q_values\<close> blob, one row of \<^verbatim>\<open>kOutputCount\<close> values for
  each batch slot (\<open>None\<close> is a NaN); \<open>CloneNet\<close> copies the parameters of a network into
  the clone; \<open>solver_step\<close> is \<^verbatim>\<open>solver_->Step(1)\<close> on the continuation, target and
  filter buffers and says whether the loss is infinite. A \<^verbatim>\<open>float\<close> or \<^verbatim>\<open>double\<close> is the
  real number it stands for; \<open>to_float\<close> and \<open>to_double\<close> round a real to the nearest
  value of the type. The buffer \<^verbatim>\<open>frame_input_\<close> is left out: the frames go to
  \<open>forward\<close> directly.
\<close>

type_synonym InputFrames = "FrameData list"

type_synonym InputFramesBatch = "InputFrames list"

type_synonym ActionValue = "Action \<times> real"

record 'n World =
  forward :: "'n \<Rightarrow> InputFramesBatch \<Rightarrow> real list \<Rightarrow> 'n \<times> real option list list"
  CloneNet :: "'n \<Rightarrow> 'n option \<Rightarrow> 'n"
  solver_step :: "'n \<Rightarrow> real list \<Rightarrow> real list \<Rightarrow> real list \<Rightarrow> 'n \<times> bool"
  to_float :: "real \<Rightarrow> real"
  to_double :: "real \<Rightarrow> real"

text \<open>
  The other fields of \<^verbatim>\<open>class DQN\<close>. \<open>solver_iter\<close> is \<^verbatim>\<open>solver_->iter()\<close>; the
  training network shares its parameters with \<open>test_net\<close>.
\<close>

record 'n DQN_train = "real DQN" +
  unroll :: int
  minibatch_size :: int
  frames_per_timestep :: int
  legal_actions :: "Action list"
  gamma :: real
  clone_frequency :: int
  last_clone_iter :: int
  solver_iter :: int
  cont_input :: "real list"
  target_input :: "real list"
  filter_input :: "real list"
  test_net :: 'n
  clone_net :: "'n option"

text \<open>Conversions: \<^verbatim>\<open>bool\<close> to \<^verbatim>\<open>float\<close>, \<^verbatim>\<open>int\<close> to \<^verbatim>\<open>size_t\<close>.\<close>

definition bool_to_float :: "bool \<Rightarrow> real" where
  "bool_to_float b = (if b then 1 else 0)"

definition to_size_t :: "int \<Rightarrow> int" where
  "to_size_t x = x mod 2 ^ 64"

section \<open>Action selection\<close>

text \<open>
  \<^verbatim>\<open>std::max_element\<close>: the index of the first largest element (0 for an empty range,
  where the iterator returned is \<^verbatim>\<open>end()\<close>).
\<close>

fun max_element_from :: "real list \<Rightarrow> nat \<Rightarrow> nat \<Rightarrow> real \<Rightarrow> nat" where
  "max_element_from [] i largest v = largest"
| "max_element_from (x # xs) i largest v =
     (if v < x then max_element_from xs (Suc i) i x
      else max_element_from xs (Suc i) largest v)"

definition max_element :: "real list \<Rightarrow> nat" where
  "max_element xs = (case xs of [] \<Rightarrow> 0 | x # rest \<Rightarrow> max_element_from rest 1 0 x)"

text \<open>
  The lambda \<^verbatim>\<open>action_evaluator\<close>: \<^verbatim>\<open>q_values_blob->data_at(0, i, action, 0)\<close> with
  \<^verbatim>\<open>CHECK(!std::isnan(q))\<close>, on row \<open>i\<close> of the blob. An index outside the row fails
  the index checks of the blob.
\<close>

definition action_evaluator :: "real option list \<Rightarrow> Action \<Rightarrow> error + real" where
  "action_evaluator row action =
     (if sint action < 0 \<or> int (length row) \<le> sint action then Inl CheckFailed
      else (case row ! nat (sint action) of
              None \<Rightarrow> Inl CheckFailed
            | Some q \<Rightarrow> Inr q))"

text \<open>\<^verbatim>\<open>std::transform\<close> with a function that may abort.\<close>

fun transform :: "('a \<Rightarrow> error + 'b) \<Rightarrow> 'a list \<Rightarrow> error + 'b list" where
  "transform f [] = Inr []"
| "transform f (x # xs) =
     (case f x of
        Inl e \<Rightarrow> Inl e
      | Inr y \<Rightarrow> (case transform f xs of Inl e \<Rightarrow> Inl e | Inr ys \<Rightarrow> Inr (y # ys)))"

text \<open>
  The body of the loop that collects the results for one batch slot:
  \<^verbatim>\<open>results.emplace_back(legal_actions_[max_idx], q_values[max_idx])\<close>.
\<close>

definition select_max :: "Action list \<Rightarrow> real option list \<Rightarrow> error + ActionValue" where
  "select_max legal row =
     (case transform (action_evaluator row) legal of
        Inl e \<Rightarrow> Inl e
      | Inr q_values \<Rightarrow>
          let max_idx = max_element q_values
          in if max_idx < length legal then Inr (legal ! max_idx, q_values ! max_idx)
             else Inl UndefinedBehaviour)"

fun collect_results ::
  "Action list \<Rightarrow> real option list list \<Rightarrow> nat \<Rightarrow> nat \<Rightarrow> error + ActionValue list" where
  "collect_results legal blob i 0 = Inr []"
| "collect_results legal blob i (Suc n) =
     (if length blob \<le> i then Inl CheckFailed
      else (case select_max legal (blob ! i) of
              Inl e \<Rightarrow> Inl e
            | Inr r \<Rightarrow>
                (case collect_results legal blob (Suc i) n of
                   Inl e \<Rightarrow> Inl e
                 | Inr rs \<Rightarrow> Inr (r # rs))))"

text \<open>
  \<^verbatim>\<open>SelectActionGreedily(net, frames_batch, cont)\<close>. It fills the shared buffer
  \<^verbatim>\<open>cont_input_\<close> with \<^verbatim>\<open>cont\<close>, reads the first \<^verbatim>\<open>frames_per_timestep_\<close> frames of
  every batch item and runs the network. An empty batch returns before all that.
\<close>

definition SelectActionGreedily ::
  "'n World \<Rightarrow> 'n \<Rightarrow> InputFramesBatch \<Rightarrow> bool \<Rightarrow> ('n, 'z) DQN_train_scheme \<Rightarrow>
   error + (ActionValue list \<times> 'n \<times> ('n, 'z) DQN_train_scheme)" where
  "SelectActionGreedily W net frames_batch cont s =
     (if frames_batch = [] then Inr ([], net, s)
      else if \<not> int (length frames_batch) \<le> to_size_t (minibatch_size s) then Inl CheckFailed
      else
        let s1 = s\<lparr>cont_input := replicate (length (cont_input s)) (bool_to_float cont)\<rparr>
        in if list_ex (\<lambda>input_frames. int (length input_frames) < frames_per_timestep s) frames_batch
           then Inl UndefinedBehaviour
           else (case forward W net (map (take (nat (frames_per_timestep s))) frames_batch)
                        (cont_input s1) of
                   (net', q_values_blob) \<Rightarrow>
                     (case collect_results (legal_actions s) q_values_blob 0 (length frames_batch) of
                        Inl e \<Rightarrow> Inl e
                      | Inr results \<Rightarrow> Inr (results, net', s1))))"

text \<open>
  The random engine is outside the model: a draw of \<^verbatim>\<open>std::uniform_real_distribution\<close>
  is an argument \<open>u\<close>, a draw of \<^verbatim>\<open>std::uniform_int_distribution<int>(a, b)\<close> is made
  from a raw number. The behaviour of the latter is undefined when \<open>b < a\<close>.
\<close>

definition uniform_int_distribution :: "int \<Rightarrow> int \<Rightarrow> nat \<Rightarrow> error + int" where
  "uniform_int_distribution a b raw =
     (if b < a then Inl UndefinedBehaviour else Inr (a + int (raw mod nat (b - a + 1))))"



section \<open>Properties of action selection\<close>
















section \<open>The training updates\<close>

text \<open>
  \<^verbatim>\<open>Blob::offset(n, c, h, w)\<close> of caffe with its checks, for a blob of four axes, and a
  write into a staging vector at the offset it gives: an index outside the vector is
  undefined behaviour.
\<close>

definition blob_offset :: "int \<times> int \<times> int \<times> int \<Rightarrow> int \<Rightarrow> int \<Rightarrow> int \<Rightarrow> int \<Rightarrow> error + int" where
  "blob_offset shape n c h w =
     (case shape of (num, channels, height, width) \<Rightarrow>
        if 0 \<le> n \<and> n \<le> num \<and> 0 \<le> channels \<and> c \<le> channels
           \<and> 0 \<le> height \<and> h \<le> height \<and> 0 \<le> width \<and> w \<le> width
        then Inr (((n * channels + c) * height + h) * width + w)
        else Inl CheckFailed)"

definition store :: "real list \<Rightarrow> int \<Rightarrow> real \<Rightarrow> error + real list" where
  "store buf off v =
     (if 0 \<le> off \<and> off < int (length buf) then Inr (buf[nat off := v])
      else Inl UndefinedBehaviour)"

text \<open>A \<^verbatim>\<open>for\<close> loop over a list whose body may abort.\<close>

fun fold_err :: "('a \<Rightarrow> 'b \<Rightarrow> error + 'b) \<Rightarrow> 'a list \<Rightarrow> 'b \<Rightarrow> error + 'b" where
  "fold_err f [] acc = Inr acc"
| "fold_err f (x # xs) acc =
     (case f x acc of
        Inl e \<Rightarrow> Inl e
      | Inr acc' \<Rightarrow> fold_err f xs acc')"

text \<open>
  The shapes of the \<^verbatim>\<open>cont\<close> blob and of the \<^verbatim>\<open>target\<close> and \<^verbatim>\<open>filter\<close> blobs of the
  training network, and the loop
  \<^verbatim>\<open>for (n < minibatch_size_) cont_input_[cont_blob->offset(0,n,0,0)] = 0.0f\<close>.
\<close>

definition cont_shape :: "('n, 'z) DQN_train_scheme \<Rightarrow> int \<times> int \<times> int \<times> int" where
  "cont_shape s = (unroll s, minibatch_size s, 1, 1)"

definition target_shape :: "('n, 'z) DQN_train_scheme \<Rightarrow> int \<times> int \<times> int \<times> int" where
  "target_shape s = (unroll s, minibatch_size s, kOutputCount, 1)"

definition zero_first_cont :: "('n, 'z) DQN_train_scheme \<Rightarrow> error + ('n, 'z) DQN_train_scheme" where
  "zero_first_cont s =
     fold_err (\<lambda>n s'. case blob_offset (cont_shape s') 0 (int n) 0 0 of
                         Inl e \<Rightarrow> Inl e
                       | Inr off \<Rightarrow>
                           (case store (cont_input s') off 0 of
                              Inl e \<Rightarrow> Inl e
                            | Inr buf \<Rightarrow> Inr (s'\<lparr>cont_input := buf\<rparr>)))
       [0..<nat (minibatch_size s)] s"

text \<open>
  The start of both updates: the clone is refreshed when it is missing or
  \<^verbatim>\<open>clone_frequency_\<close> iterations old. Then \<^verbatim>\<open>ep_inds\<close>: the argument \<open>shuffled\<close> is
  what \<^verbatim>\<open>std::random_shuffle\<close> made of the indices of the episodes, cut to
  \<^verbatim>\<open>minibatch_size_\<close>.
\<close>

definition refresh_clone :: "'n World \<Rightarrow> ('n, 'z) DQN_train_scheme \<Rightarrow> ('n, 'z) DQN_train_scheme" where
  "refresh_clone W s =
     (if clone_net s = None
         \<or> solver_iter s \<ge> to_int32 (last_clone_iter s + clone_frequency s)
      then s\<lparr>clone_net := Some (CloneNet W (test_net s) (clone_net s)),
             last_clone_iter := solver_iter s\<rparr>
      else s)"

definition select_episodes :: "nat list \<Rightarrow> ('n, 'z) DQN_train_scheme \<Rightarrow> nat list" where
  "select_episodes shuffled s =
     (if int (length shuffled) > to_size_t (minibatch_size s)
      then take (nat (to_size_t (minibatch_size s))) shuffled
      else shuffled)"

text \<open>\<^verbatim>\<open>replay_memory_[i]\<close>.\<close>

definition episode_at :: "'r ReplayMemory \<Rightarrow> nat \<Rightarrow> error + 'r Episode" where
  "episode_at m i = (if i < length m then Inr (m ! i) else Inl UndefinedBehaviour)"

text \<open>
  \<^verbatim>\<open>
  const float target = std::get<3>(transition) ?
      reward + gamma_ * actions_and_values[target_value_idx++].second :
      reward;
  \<close>
  The sum and the product are computed in \<^verbatim>\<open>double\<close> and the result is stored in a
  \<^verbatim>\<open>float\<close>.
\<close>

definition make_target ::
  "'n World \<Rightarrow> real \<Rightarrow> real Transition \<Rightarrow> ActionValue list \<Rightarrow> nat \<Rightarrow> error + (real \<times> nat)" where
  "make_target W gamma' transition actions_and_values target_value_idx =
     (case get3 transition of
        Some next_frame \<Rightarrow>
          if target_value_idx < length actions_and_values
          then Inr (to_float W (to_double W (get2 transition
                      + to_double W (gamma' * snd (actions_and_values ! target_value_idx)))),
                    Suc target_value_idx)
          else Inl UndefinedBehaviour
      | None \<Rightarrow> Inr (to_float W (get2 transition), target_value_idx))"

text \<open>
  The body that both updates run for a transition: the checks on the action and the
  reward, the target, and the writes into \<^verbatim>\<open>filter_input_\<close> and \<^verbatim>\<open>target_input_\<close> at
  \<^verbatim>\<open>offset(i, n, action, 0)\<close>.
\<close>

definition write_target ::
  "'n World \<Rightarrow> int \<Rightarrow> int \<Rightarrow> real Transition \<Rightarrow> ActionValue list \<Rightarrow>
   nat \<times> ('n, 'z) DQN_train_scheme \<Rightarrow> error + (nat \<times> ('n, 'z) DQN_train_scheme)" where
  "write_target W i n transition actions_and_values st =
     (case st of (target_value_idx, s) \<Rightarrow>
        let action = sint (get1 transition) in
        if \<not> action < kOutputCount then Inl CheckFailed
        else if \<not> (get2 transition \<ge> - 1 \<and> get2 transition \<le> 1) then Inl CheckFailed
        else (case make_target W (gamma s) transition actions_and_values target_value_idx of
                Inl e \<Rightarrow> Inl e
              | Inr (target, idx') \<Rightarrow>
                  (case blob_offset (target_shape s) i n action 0 of
                     Inl e \<Rightarrow> Inl e
                   | Inr off \<Rightarrow>
                       (case store (filter_input s) off 1 of
                          Inl e \<Rightarrow> Inl e
                        | Inr filter' \<Rightarrow>
                            (case store (target_input s) off target of
                               Inl e \<Rightarrow> Inl e
                             | Inr target' \<Rightarrow>
                                 Inr (idx', s\<lparr>filter_input := filter',
                                              target_input := target'\<rparr>))))))"

subsection \<open>UpdateRandom\<close>

text \<open>
  \<^verbatim>\<open>
  int ep_size = replay_memory_[ep_inds[n]].size();
  int last_valid_frame = ep_size-1 - (frames_per_timestep_-1) - (unroll_-1);
  ep_starts[n] = std::uniform_int_distribution<int>(0, last_valid_frame)(random_engine);
  \<close>
\<close>

definition sample_start ::
  "('n, 'z) DQN_train_scheme \<Rightarrow> nat \<Rightarrow> nat \<Rightarrow> error + int" where
  "sample_start s ep_ind raw =
     (case episode_at (replay_memory s) ep_ind of
        Inl e \<Rightarrow> Inl e
      | Inr episode \<Rightarrow>
          let ep_size = to_int32 (int (length episode));
              last_valid_frame = ep_size - 1 - (frames_per_timestep s - 1) - (unroll s - 1)
          in uniform_int_distribution 0 last_valid_frame raw)"

text \<open>
  \<^verbatim>\<open>std::get<3>(episode[ts]).get()\<close>, and the window of next frames of one selected
  episode at unroll position \<open>u\<close> (\<open>None\<close> when the transition at \<^verbatim>\<open>last_frame_ts\<close> is
  terminal).
\<close>

definition next_frame_at :: "real Episode \<Rightarrow> int \<Rightarrow> error + FrameData" where
  "next_frame_at episode ts =
     (if ts < 0 \<or> int (length episode) \<le> ts then Inl UndefinedBehaviour
      else (case get3 (episode ! nat ts) of
              None \<Rightarrow> Inl UndefinedBehaviour
            | Some frame \<Rightarrow> Inr frame))"

definition random_window ::
  "('n, 'z) DQN_train_scheme \<Rightarrow> int \<Rightarrow> nat \<times> int \<Rightarrow> error + InputFrames option" where
  "random_window s u sel =
     (case sel of (ep_ind, ep_start) \<Rightarrow>
        (case episode_at (replay_memory s) ep_ind of
           Inl e \<Rightarrow> Inl e
         | Inr episode \<Rightarrow>
             let last_frame_ts = ep_start + u + (frames_per_timestep s - 1) in
             if \<not> int (length episode) > to_size_t last_frame_ts then Inl CheckFailed
             else if get3 (episode ! nat last_frame_ts) \<noteq> None then
               (if frames_per_timestep s < 0 then Inl LengthError
                else (case transform (\<lambda>i. next_frame_at episode (ep_start + u + int i))
                             [0..<nat (frames_per_timestep s)] of
                        Inl e \<Rightarrow> Inl e
                      | Inr input_frames \<Rightarrow> Inr (Some input_frames)))
             else Inr None))"

text \<open>The target of one selected episode at unroll position \<open>u\<close>.\<close>

definition random_target ::
  "'n World \<Rightarrow> int \<Rightarrow> ActionValue list \<Rightarrow> nat \<times> nat \<times> int \<Rightarrow>
   nat \<times> ('n, 'z) DQN_train_scheme \<Rightarrow> error + (nat \<times> ('n, 'z) DQN_train_scheme)" where
  "random_target W u actions_and_values sel st =
     (case sel of (n, ep_ind, ep_start) \<Rightarrow>
        (case episode_at (replay_memory (snd st)) ep_ind of
           Inl e \<Rightarrow> Inl e
         | Inr episode \<Rightarrow>
             let ts = ep_start + u + (frames_per_timestep (snd st) - 1) in
             if \<not> int (length episode) > to_size_t ts then Inl CheckFailed
             else write_target W u (int n) (episode ! nat ts) actions_and_values st))"

text \<open>
  One turn of \<^verbatim>\<open>for (int u = 0; u < unroll_; ++u)\<close>: the windows, the values of the
  clone, the targets, and \<^verbatim>\<open>CHECK_EQ(target_value_idx, actions_and_values.size())\<close>.
\<close>

definition random_unroll_step ::
  "'n World \<Rightarrow> (nat \<times> int) list \<Rightarrow> nat \<Rightarrow> ('n, 'z) DQN_train_scheme \<Rightarrow>
   error + ('n, 'z) DQN_train_scheme" where
  "random_unroll_step W sels u s =
     (case transform (random_window s (int u)) sels of
        Inl e \<Rightarrow> Inl e
      | Inr windows \<Rightarrow>
          (case clone_net s of
             None \<Rightarrow> Inl UndefinedBehaviour
           | Some clone \<Rightarrow>
               (case SelectActionGreedily W clone (List.map_filter (\<lambda>w. w) windows) (u > 0) s of
                  Inl e \<Rightarrow> Inl e
                | Inr (actions_and_values, clone', s1) \<Rightarrow>
                    (case fold_err (random_target W (int u) actions_and_values)
                            (zip [0..<length sels] sels) (0, s1\<lparr>clone_net := Some clone'\<rparr>) of
                       Inl e \<Rightarrow> Inl e
                     | Inr (target_value_idx, s2) \<Rightarrow>
                         if target_value_idx \<noteq> length actions_and_values then Inl CheckFailed
                         else Inr s2))))"

text \<open>
  \<^verbatim>\<open>UpdateRandom\<close>. \<open>raw n\<close> is the raw random number behind the start of the \<open>n\<close>-th
  selected episode. The result is the 1 the function returns and the new state.
\<close>

definition UpdateRandom ::
  "'n World \<Rightarrow> nat list \<Rightarrow> (nat \<Rightarrow> nat) \<Rightarrow> ('n, 'z) DQN_train_scheme \<Rightarrow>
   error + (int \<times> ('n, 'z) DQN_train_scheme)" where
  "UpdateRandom W shuffled raw s =
     (let s0 = refresh_clone W s;
          s1 = s0\<lparr>filter_input := replicate (length (filter_input s0)) 0,
                  target_input := replicate (length (target_input s0)) 0,
                  cont_input := replicate (length (cont_input s0)) 1\<rparr>
      in case zero_first_cont s1 of
           Inl e \<Rightarrow> Inl e
         | Inr s2 \<Rightarrow>
             let ep_inds = select_episodes shuffled s2 in
             (case transform (\<lambda>n. sample_start s2 (ep_inds ! n) (raw n)) [0..<length ep_inds] of
                Inl e \<Rightarrow> Inl e
              | Inr ep_starts \<Rightarrow>
                  (case fold_err (random_unroll_step W (zip ep_inds ep_starts))
                          [0..<nat (unroll s2)] s2 of
                     Inl e \<Rightarrow> Inl e
                   | Inr s3 \<Rightarrow>
                       (case solver_step W (test_net s3) (cont_input s3) (target_input s3)
                               (filter_input s3) of
                          (net', loss_is_inf) \<Rightarrow>
                            if loss_is_inf then Inl CheckFailed
                            else Inr (1, s3\<lparr>test_net := net',
                                            solver_iter := solver_iter s3 + 1\<rparr>)))))"

subsection \<open>UpdateSequential\<close>

text \<open>
  The sliding window of one selected episode at time \<open>t\<close>: the next frame is pushed and
  the deque cut to \<^verbatim>\<open>frames_per_timestep_\<close>, or the deque is cleared. The flag says
  whether the episode is still active.
\<close>

definition trim_deque :: "int \<Rightarrow> FrameData list \<Rightarrow> FrameData list" where
  "trim_deque frames_per_timestep' frame_deque =
     (if int (length frame_deque) > to_size_t frames_per_timestep'
      then drop (length frame_deque - nat (to_size_t frames_per_timestep')) frame_deque
      else frame_deque)"

definition advance_deque ::
  "('n, 'z) DQN_train_scheme \<Rightarrow> int \<Rightarrow> nat \<times> FrameData list \<Rightarrow> error + (bool \<times> FrameData list)" where
  "advance_deque s t sel =
     (case sel of (ep_ind, frame_deque) \<Rightarrow>
        (case episode_at (replay_memory s) ep_ind of
           Inl e \<Rightarrow> Inl e
         | Inr episode \<Rightarrow>
             if to_size_t t < int (length episode) then
               (case get3 (episode ! nat t) of
                  Some next_frame \<Rightarrow>
                    Inr (True, trim_deque (frames_per_timestep s) (frame_deque @ [next_frame]))
                | None \<Rightarrow> Inr (False, []))
             else Inr (False, [])))"

definition deque_window :: "('n, 'z) DQN_train_scheme \<Rightarrow> FrameData list \<Rightarrow> error + InputFrames option" where
  "deque_window s frame_deque =
     (if frame_deque \<noteq> [] then
        (if int (length frame_deque) = to_size_t (frames_per_timestep s) then Inr (Some frame_deque)
         else Inl CheckFailed)
      else Inr None)"

definition sequential_target ::
  "'n World \<Rightarrow> int \<Rightarrow> int \<Rightarrow> ActionValue list \<Rightarrow> nat \<times> nat \<Rightarrow>
   nat \<times> ('n, 'z) DQN_train_scheme \<Rightarrow> error + (nat \<times> ('n, 'z) DQN_train_scheme)" where
  "sequential_target W i t actions_and_values sel st =
     (case sel of (n, ep_ind) \<Rightarrow>
        (case episode_at (replay_memory (snd st)) ep_ind of
           Inl e \<Rightarrow> Inl e
         | Inr episode \<Rightarrow>
             if to_size_t t < int (length episode)
             then write_target W i (int n) (episode ! nat t) actions_and_values st
             else Inr st))"

text \<open>
  One turn of \<^verbatim>\<open>for (int i = 0; i < unroll_; ++i, ++t)\<close>, on \<^verbatim>\<open>active_episodes\<close>, the
  deques and the state.
\<close>

definition sequential_unroll_step ::
  "'n World \<Rightarrow> nat list \<Rightarrow> int \<Rightarrow> nat \<Rightarrow>
   bool \<times> FrameData list list \<times> ('n, 'z) DQN_train_scheme \<Rightarrow>
   error + (bool \<times> FrameData list list \<times> ('n, 'z) DQN_train_scheme)" where
  "sequential_unroll_step W ep_inds t0 i st =
     (case st of (active_episodes, past_frames, s) \<Rightarrow>
        let t = t0 + int i in
        (case transform (advance_deque s t) (zip ep_inds past_frames) of
           Inl e \<Rightarrow> Inl e
         | Inr advanced \<Rightarrow>
             let active = list_ex fst advanced;
                 past_frames' = map snd advanced
             in if t < frames_per_timestep s then Inr (active, past_frames', s)
                else (case transform (deque_window s) past_frames' of
                        Inl e \<Rightarrow> Inl e
                      | Inr windows \<Rightarrow>
                          (case clone_net s of
                             None \<Rightarrow> Inl UndefinedBehaviour
                           | Some clone \<Rightarrow>
                               (case SelectActionGreedily W clone (List.map_filter (\<lambda>w. w) windows)
                                       (t > 0) s of
                                  Inl e \<Rightarrow> Inl e
                                | Inr (actions_and_values, clone', s1) \<Rightarrow>
                                    (case fold_err (sequential_target W (int i) t actions_and_values)
                                            (zip [0..<length ep_inds] ep_inds)
                                            (0, s1\<lparr>clone_net := Some clone'\<rparr>) of
                                       Inl e \<Rightarrow> Inl e
                                     | Inr (target_value_idx, s2) \<Rightarrow>
                                         if target_value_idx \<noteq> length actions_and_values
                                         then Inl CheckFailed
                                         else Inr (active, past_frames', s2)))))))"

text \<open>
  \<^verbatim>\<open>while (active_episodes > 0)\<close>, with fuel: \<open>None\<close> when the fuel runs out before the
  loop ends (with \<^verbatim>\<open>unroll_ <= 0\<close> and a selected episode it never ends).
\<close>

fun sequential_loop ::
  "nat \<Rightarrow> 'n World \<Rightarrow> nat list \<Rightarrow> bool \<Rightarrow> int \<Rightarrow> int \<Rightarrow> FrameData list list \<Rightarrow>
   ('n, 'z) DQN_train_scheme \<Rightarrow> (error + (int \<times> ('n, 'z) DQN_train_scheme)) option" where
  "sequential_loop 0 W ep_inds active_episodes t update_step past_frames s = None"
| "sequential_loop (Suc fuel) W ep_inds active_episodes t update_step past_frames s =
     (if \<not> active_episodes then Some (Inr (update_step, s))
      else
        let s1 = s\<lparr>filter_input := replicate (length (filter_input s)) 0,
                   target_input := replicate (length (target_input s)) 0,
                   cont_input := replicate (length (cont_input s)) 0\<rparr>
        in (case (if t = 0 then zero_first_cont s1 else Inr s1) of
              Inl e \<Rightarrow> Some (Inl e)
            | Inr s2 \<Rightarrow>
                (case fold_err (sequential_unroll_step W ep_inds t) [0..<nat (unroll s2)]
                        (active_episodes, past_frames, s2) of
                   Inl e \<Rightarrow> Some (Inl e)
                 | Inr (active', past_frames', s3) \<Rightarrow>
                     (case solver_step W (test_net s3) (cont_input s3) (target_input s3)
                             (filter_input s3) of
                        (net', loss_is_inf) \<Rightarrow>
                          sequential_loop fuel W ep_inds active' (t + int (nat (unroll s2)))
                            (update_step + 1) past_frames'
                            (s3\<lparr>test_net := net', solver_iter := solver_iter s3 + 1\<rparr>)))))"

definition UpdateSequential ::
  "nat \<Rightarrow> 'n World \<Rightarrow> nat list \<Rightarrow> ('n, 'z) DQN_train_scheme \<Rightarrow>
   (error + (int \<times> ('n, 'z) DQN_train_scheme)) option" where
  "UpdateSequential fuel W shuffled s =
     (let s0 = refresh_clone W s;
          ep_inds = select_episodes shuffled s0
      in sequential_loop fuel W ep_inds (ep_inds \<noteq> []) 0 0 (replicate (length ep_inds) []) s0)"

section \<open>Properties of the training updates\<close>

text \<open>
  An example: a library whose network state is the list of the continuation buffers
  the solver was given, with exact arithmetic, and a memory of one episode of three
  transitions, with an unroll of two steps, one frame for each time step and a minibatch
  of one.
\<close>

definition logging_world :: "real list list World" where
  "logging_world =
     \<lparr>forward = (\<lambda>net frames cont. (net, map (\<lambda>fr. replicate 18 (Some 3)) frames)),
      CloneNet = (\<lambda>net old. []),
      solver_step = (\<lambda>net cont target filter. (net @ [cont], False)),
      to_float = (\<lambda>x. x),
      to_double = (\<lambda>x. x)\<rparr>"

definition three_step_state :: "real list list DQN_train" where
  "three_step_state =
     \<lparr>replay_memory_capacity = 100, replay_memory_size = 3,
      replay_memory =
        [[(replicate kCroppedFrameDataSize 0, 0, 1, Some (replicate kCroppedFrameDataSize 1)),
          (replicate kCroppedFrameDataSize 1, 0, 0, Some (replicate kCroppedFrameDataSize 2)),
          (replicate kCroppedFrameDataSize 2, 0, 1, None)]],
      unroll = 2, minibatch_size = 1, frames_per_timestep = 1,
      legal_actions = [0], gamma = 1 / 2,
      clone_frequency = 10, last_clone_iter = 0, solver_iter = 0,
      cont_input = [0, 0], target_input = replicate 36 0, filter_input = replicate 36 0,
      test_net = [], clone_net = None\<rparr>"

lemmas update_defs = UpdateSequential_def refresh_clone_def select_episodes_def to_size_t_def
  zero_first_cont_def cont_shape_def target_shape_def blob_offset_def store_def
  sequential_unroll_step_def advance_deque_def episode_at_def trim_deque_def deque_window_def
  sequential_target_def write_target_def make_target_def SelectActionGreedily_def
  select_max_def action_evaluator_def max_element_def bool_to_float_def kOutputCount_def
  get0_def get1_def get2_def get3_def List.map_filter_def to_int32_def

text \<open>
  C2 (the code departs from the claim). \<^verbatim>\<open>UpdateSequential\<close> on the example makes two
  solver steps. The continuation buffer of the first, for the time steps 0 and 1, is
  all ones: the call of \<^verbatim>\<open>SelectActionGreedily\<close> at time step 1 has filled the shared
  buffer with its own flag. The buffer of the second, for the time steps 2 and 3, is all
  zeros: the loop fills it with zeros and no episode is active any more. The claim asks
  for zero at time step 0 only.
\<close>

theorem UpdateSequential_continuation_flags:
  "\<exists>s'. UpdateSequential 3 logging_world [0] three_step_state = Some (Inr (2, s'))
   \<and> test_net s' = [[1, 1], [0, 0]]"
  by (simp add: update_defs logging_world_def three_step_state_def numeral_3_eq_3 numeral_2_eq_2
      kCroppedFrameDataSize_def kCroppedFrameSize_def Let_def)

lemma fold_err_invariant:
  assumes "\<And>x a. x \<in> set xs \<Longrightarrow> P a \<Longrightarrow> \<exists>a'. f x a = Inr a' \<and> P a'" and "P acc"
  shows "\<exists>acc'. fold_err f xs acc = Inr acc' \<and> P acc'"
  using assms
proof (induction xs arbitrary: acc)
  case Nil
  then show ?case by simp
next
  case (Cons x xs)
  obtain a' where a': "f x acc = Inr a'" "P a'" using Cons.prems by force
  have "\<exists>acc'. fold_err f xs a' = Inr acc' \<and> P acc'"
    using Cons.prems(1) a'(2) by (intro Cons.IH) auto
  then show ?case using a'(1) by simp
qed

lemma zero_first_cont_ok:
  assumes "1 \<le> unroll s" and "0 \<le> minibatch_size s"
    and "int (length (cont_input s)) = unroll s * minibatch_size s"
  shows "\<exists>buf. zero_first_cont s = Inr (s\<lparr>cont_input := buf\<rparr>)
           \<and> length buf = length (cont_input s)"
proof -
  let ?P = "\<lambda>s'. \<exists>buf. s' = s\<lparr>cont_input := buf\<rparr> \<and> length buf = length (cont_input s)"
  let ?f = "\<lambda>n s'. case blob_offset (cont_shape s') 0 (int n) 0 0 of
                         Inl e \<Rightarrow> Inl e
                       | Inr off \<Rightarrow>
                           (case store (cont_input s') off 0 of
                              Inl e \<Rightarrow> Inl e
                            | Inr buf \<Rightarrow> Inr (s'\<lparr>cont_input := buf\<rparr>))"
  have step: "\<exists>a'. ?f n a = Inr a' \<and> ?P a'" if n: "n \<in> set [0..<nat (minibatch_size s)]" and a: "?P a"
    for n a
  proof -
    obtain buf where buf: "a = s\<lparr>cont_input := buf\<rparr>" "length buf = length (cont_input s)"
      using a by blast
    have nm: "int n < minibatch_size s" using n by simp
    have off: "blob_offset (cont_shape (s\<lparr>cont_input := buf\<rparr>)) 0 (int n) 0 0 = Inr (int n)"
      using assms(1,2) nm by (simp add: blob_offset_def cont_shape_def)
    have "1 * minibatch_size s \<le> unroll s * minibatch_size s"
      using assms(1,2) by (intro mult_right_mono)
    then have "int n < int (length buf)" using nm assms(3) buf(2) by linarith
    then have st: "store buf (int n) 0 = Inr (buf[n := 0])"
      by (simp add: store_def)
    have "?f n a = Inr (s\<lparr>cont_input := buf[n := 0]\<rparr>)"
      unfolding buf(1) off by (simp add: st)
    moreover have "?P (s\<lparr>cont_input := buf[n := 0]\<rparr>)"
      using buf(2) by (intro exI [of _ "buf[n := 0]"]) simp
    ultimately show ?thesis by blast
  qed
  have "?P s" by (rule exI [of _ "cont_input s"]) simp
  from fold_err_invariant [of "[0..<nat (minibatch_size s)]" ?P ?f, OF step this]
  show ?thesis unfolding zero_first_cont_def by blast
qed

lemma transform_first_error:
  assumes "\<forall>x \<in> set xs. f x = Inl e \<or> (\<exists>y. f x = Inr y)" and "\<exists>x \<in> set xs. f x = Inl e"
  shows "transform f xs = Inl e"
  using assms
proof (induction xs)
  case Nil
  then show ?case by simp
next
  case (Cons x xs)
  show ?case
  proof (cases "f x")
    case (Inl e')
    then show ?thesis using Cons.prems(1) by auto
  next
    case (Inr y)
    then have "\<exists>x \<in> set xs. f x = Inl e" using Cons.prems(2) by auto
    then have "transform f xs = Inl e" using Cons.prems(1) by (intro Cons.IH) auto
    then show ?thesis using Inr by simp
  qed
qed

lemma sample_start_cases:
  assumes "ep_ind < length (replay_memory s)"
    and "int (length (replay_memory s ! ep_ind)) < 2 ^ 31"
  shows "(int (length (replay_memory s ! ep_ind)) < frames_per_timestep s + unroll s - 1
           \<longrightarrow> sample_start s ep_ind raw = Inl UndefinedBehaviour)
       \<and> (frames_per_timestep s + unroll s - 1 \<le> int (length (replay_memory s ! ep_ind))
           \<longrightarrow> (\<exists>ep_start. sample_start s ep_ind raw = Inr ep_start \<and> 0 \<le> ep_start
                 \<and> ep_start + (unroll s - 1) + (frames_per_timestep s - 1)
                     < int (length (replay_memory s ! ep_ind))))"
proof -
  let ?n = "int (length (replay_memory s ! ep_ind))"
  let ?last = "?n - 1 - (frames_per_timestep s - 1) - (unroll s - 1)"
  have w: "to_int32 ?n = ?n" using assms(2) by (intro to_int32_id) simp_all
  have S: "sample_start s ep_ind raw = uniform_int_distribution 0 ?last raw"
    using assms(1) by (simp add: sample_start_def episode_at_def w Let_def)
  have "uniform_int_distribution 0 ?last raw = Inl UndefinedBehaviour"
    if "?n < frames_per_timestep s + unroll s - 1"
    using that by (simp add: uniform_int_distribution_def)
  moreover have "\<exists>ep_start. uniform_int_distribution 0 ?last raw = Inr ep_start \<and> 0 \<le> ep_start
                 \<and> ep_start + (unroll s - 1) + (frames_per_timestep s - 1) < ?n"
    if le: "frames_per_timestep s + unroll s - 1 \<le> ?n"
  proof -
    have nn: "0 \<le> ?last" using le by simp
    have "0 < nat (?last - 0 + 1)" using nn by simp
    then have "raw mod nat (?last - 0 + 1) < nat (?last - 0 + 1)" by (rule mod_less_divisor)
    then have "int (raw mod nat (?last - 0 + 1)) \<le> ?last" using nn by linarith
    then show ?thesis using nn by (simp add: uniform_int_distribution_def)
  qed
  ultimately show ?thesis unfolding S by blast
qed

text \<open>
  C8 (as amended). \<^verbatim>\<open>UpdateRandom\<close> does not look at the lengths of the selected
  episodes before it samples. When one of them is shorter than a history window plus an
  unroll window the bounds of the distribution are reversed and the behaviour is
  undefined; no condition is signalled. For an episode that is long enough the start
  that is drawn leaves the whole window inside the episode.
\<close>

theorem UpdateRandom_no_length_validation:
  assumes "1 \<le> unroll s" and "0 \<le> minibatch_size s"
    and "int (length (cont_input s)) = unroll s * minibatch_size s"
    and "\<forall>i \<in> set shuffled. i < length (replay_memory s)
           \<and> int (length (replay_memory s ! i)) < 2 ^ 31"
  shows "((\<exists>i \<in> set (select_episodes shuffled s).
             int (length (replay_memory s ! i)) < frames_per_timestep s + unroll s - 1)
          \<longrightarrow> UpdateRandom W shuffled raw s = Inl UndefinedBehaviour)
       \<and> (\<forall>i \<in> set (select_episodes shuffled s).
             frames_per_timestep s + unroll s - 1 \<le> int (length (replay_memory s ! i))
             \<longrightarrow> (\<exists>ep_start. sample_start s i raw' = Inr ep_start \<and> 0 \<le> ep_start
                   \<and> ep_start + (unroll s - 1) + (frames_per_timestep s - 1)
                       < int (length (replay_memory s ! i))))"
proof (intro conjI impI ballI)
  fix i assume i: "i \<in> set (select_episodes shuffled s)"
    and long: "frames_per_timestep s + unroll s - 1 \<le> int (length (replay_memory s ! i))"
  have "i \<in> set shuffled" using i by (auto simp: select_episodes_def dest: in_set_takeD split: if_splits)
  then have "i < length (replay_memory s)" "int (length (replay_memory s ! i)) < 2 ^ 31"
    using assms(4) by auto
  from sample_start_cases [OF this] long
  show "\<exists>ep_start. sample_start s i raw' = Inr ep_start \<and> 0 \<le> ep_start
          \<and> ep_start + (unroll s - 1) + (frames_per_timestep s - 1)
              < int (length (replay_memory s ! i))"
    by blast
next
  assume short: "\<exists>i \<in> set (select_episodes shuffled s).
             int (length (replay_memory s ! i)) < frames_per_timestep s + unroll s - 1"
  let ?s0 = "refresh_clone W s"
  let ?s1 = "?s0\<lparr>filter_input := replicate (length (filter_input ?s0)) 0,
                  target_input := replicate (length (target_input ?s0)) 0,
                  cont_input := replicate (length (cont_input ?s0)) 1\<rparr>"
  have s1: "unroll ?s1 = unroll s" "minibatch_size ?s1 = minibatch_size s"
    "frames_per_timestep ?s1 = frames_per_timestep s" "replay_memory ?s1 = replay_memory s"
    "length (cont_input ?s1) = length (cont_input s)"
    by (simp_all add: refresh_clone_def)
  have "\<exists>buf. zero_first_cont ?s1 = Inr (?s1\<lparr>cont_input := buf\<rparr>)
           \<and> length buf = length (cont_input ?s1)"
    using assms(1,2,3) unfolding s1 [symmetric] by (intro zero_first_cont_ok) (simp_all only: s1)
  then obtain buf where z: "zero_first_cont ?s1 = Inr (?s1\<lparr>cont_input := buf\<rparr>)" by blast
  let ?s2 = "?s1\<lparr>cont_input := buf\<rparr>"
  have s2: "unroll ?s2 = unroll s" "minibatch_size ?s2 = minibatch_size s"
    "frames_per_timestep ?s2 = frames_per_timestep s" "replay_memory ?s2 = replay_memory s"
    by (simp_all add: refresh_clone_def)
  have sel: "select_episodes shuffled ?s2 = select_episodes shuffled s"
    by (simp add: select_episodes_def refresh_clone_def)
  let ?inds = "select_episodes shuffled s"
  let ?f = "\<lambda>n. sample_start ?s2 (?inds ! n) (raw n)"
  have sub: "set ?inds \<subseteq> set shuffled"
    by (auto simp: select_episodes_def dest: in_set_takeD split: if_splits)
  have each: "?f n = Inl UndefinedBehaviour \<or> (\<exists>y. ?f n = Inr y)" if "n < length ?inds" for n
  proof -
    have "?inds ! n \<in> set shuffled" using that sub by auto
    then have a: "?inds ! n < length (replay_memory ?s2)"
      "int (length (replay_memory ?s2 ! (?inds ! n))) < 2 ^ 31"
      using assms(4) unfolding s2 by auto
    show ?thesis using sample_start_cases [OF a, of "raw n"] by (metis not_le_imp_less)
  qed
  obtain n where n: "n < length ?inds"
    "int (length (replay_memory s ! (?inds ! n))) < frames_per_timestep s + unroll s - 1"
    using short by (metis in_set_conv_nth)
  have bad: "?f n = Inl UndefinedBehaviour"
  proof -
    have "?inds ! n \<in> set shuffled" using n(1) sub by auto
    then have a: "?inds ! n < length (replay_memory ?s2)"
      "int (length (replay_memory ?s2 ! (?inds ! n))) < 2 ^ 31"
      using assms(4) unfolding s2 by auto
    show ?thesis using sample_start_cases [OF a, of "raw n"] n(2) unfolding s2 by blast
  qed
  have T0: "transform ?f [0..<length ?inds] = Inl UndefinedBehaviour"
  proof (rule transform_first_error)
    show "\<forall>x \<in> set [0..<length ?inds]. ?f x = Inl UndefinedBehaviour \<or> (\<exists>y. ?f x = Inr y)"
      using each by simp
    show "\<exists>x \<in> set [0..<length ?inds]. ?f x = Inl UndefinedBehaviour"
      using n(1) bad by auto
  qed
  have T: "transform (\<lambda>n. sample_start ?s2 (select_episodes shuffled ?s2 ! n) (raw n))
             [0..<length (select_episodes shuffled ?s2)] = Inl UndefinedBehaviour"
    unfolding sel by (rule T0)
  show "UpdateRandom W shuffled raw s = Inl UndefinedBehaviour"
    unfolding UpdateRandom_def Let_def z sum.case T ..
qed









text \<open>
  A memory whose only episode has one transition, with an unroll of two steps.
\<close>

definition short_episode_state :: "real list list DQN_train" where
  "short_episode_state =
     three_step_state\<lparr>replay_memory_size := 1,
       replay_memory := [[(replicate kCroppedFrameDataSize 0, 0, 1, None)]]\<rparr>"

text \<open>
  C8 as stated fails: with an episode of one transition, an unroll of two and one frame
  for each time step, \<^verbatim>\<open>last_valid_frame\<close> is \<open>-1\<close> and the call ends in the
  distribution, not in a check.
\<close>

theorem UpdateRandom_short_episode_counterexample:
  "UpdateRandom logging_world [0] (\<lambda>n. 0) short_episode_state = Inl UndefinedBehaviour"
  by (simp add: UpdateRandom_def refresh_clone_def select_episodes_def to_size_t_def
      zero_first_cont_def cont_shape_def blob_offset_def store_def sample_start_def
      episode_at_def uniform_int_distribution_def to_int32_def logging_world_def
      short_episode_state_def three_step_state_def Let_def)

text \<open>The episode of three transitions is long enough.\<close>

theorem UpdateRandom_no_length_validation_witness:
  "\<exists>ep_start. sample_start three_step_state 0 7 = Inr ep_start \<and> 0 \<le> ep_start
     \<and> ep_start + (unroll three_step_state - 1) + (frames_per_timestep three_step_state - 1) < 3"
proof -
  have sel: "select_episodes [0] three_step_state = [0]"
    by (simp add: select_episodes_def three_step_state_def to_size_t_def)
  have "((\<exists>i \<in> set (select_episodes [0] three_step_state).
             int (length (replay_memory three_step_state ! i))
               < frames_per_timestep three_step_state + unroll three_step_state - 1)
          \<longrightarrow> UpdateRandom logging_world [0] (\<lambda>n. 0) three_step_state = Inl UndefinedBehaviour)
       \<and> (\<forall>i \<in> set (select_episodes [0] three_step_state).
             frames_per_timestep three_step_state + unroll three_step_state - 1
               \<le> int (length (replay_memory three_step_state ! i))
             \<longrightarrow> (\<exists>ep_start. sample_start three_step_state i 7 = Inr ep_start \<and> 0 \<le> ep_start
                   \<and> ep_start + (unroll three_step_state - 1)
                        + (frames_per_timestep three_step_state - 1)
                       < int (length (replay_memory three_step_state ! i))))"
    by (rule UpdateRandom_no_length_validation) (simp_all add: three_step_state_def)
  then have "frames_per_timestep three_step_state + unroll three_step_state - 1
               \<le> int (length (replay_memory three_step_state ! 0))
             \<longrightarrow> (\<exists>ep_start. sample_start three_step_state 0 7 = Inr ep_start \<and> 0 \<le> ep_start
                   \<and> ep_start + (unroll three_step_state - 1)
                        + (frames_per_timestep three_step_state - 1)
                       < int (length (replay_memory three_step_state ! 0)))"
    unfolding sel by simp
  moreover have "frames_per_timestep three_step_state + unroll three_step_state - 1
               \<le> int (length (replay_memory three_step_state ! 0))"
    "int (length (replay_memory three_step_state ! 0)) = 3"
    by (simp_all add: three_step_state_def)
  ultimately show ?thesis by simp
qed




section \<open>The frame preprocessor (PreprocessScreen)\<close>

text \<open>
  An \<^verbatim>\<open>ALEScreen\<close> is its width, its height and the array of its pixels, one byte
  each. A \<^verbatim>\<open>double\<close> is the real number it stands for and the arithmetic is exact; a
  conversion to \<^verbatim>\<open>uint8_t\<close> drops the fraction and is undefined outside 0 to 255.
\<close>

record ALEScreen =
  width :: int
  height :: int
  getArray :: "8 word list"

definition ntsc_to_rgb :: "int list" where
  "ntsc_to_rgb =
     [
      0x000000, 0, 0x4a4a4a, 0, 0x6f6f6f, 0, 0x8e8e8e, 0,
      0xaaaaaa, 0, 0xc0c0c0, 0, 0xd6d6d6, 0, 0xececec, 0,
      0x484800, 0, 0x69690f, 0, 0x86861d, 0, 0xa2a22a, 0,
      0xbbbb35, 0, 0xd2d240, 0, 0xe8e84a, 0, 0xfcfc54, 0,
      0x7c2c00, 0, 0x904811, 0, 0xa26221, 0, 0xb47a30, 0,
      0xc3903d, 0, 0xd2a44a, 0, 0xdfb755, 0, 0xecc860, 0,
      0x901c00, 0, 0xa33915, 0, 0xb55328, 0, 0xc66c3a, 0,
      0xd5824a, 0, 0xe39759, 0, 0xf0aa67, 0, 0xfcbc74, 0,
      0x940000, 0, 0xa71a1a, 0, 0xb83232, 0, 0xc84848, 0,
      0xd65c5c, 0, 0xe46f6f, 0, 0xf08080, 0, 0xfc9090, 0,
      0x840064, 0, 0x97197a, 0, 0xa8308f, 0, 0xb846a2, 0,
      0xc659b3, 0, 0xd46cc3, 0, 0xe07cd2, 0, 0xec8ce0, 0,
      0x500084, 0, 0x68199a, 0, 0x7d30ad, 0, 0x9246c0, 0,
      0xa459d0, 0, 0xb56ce0, 0, 0xc57cee, 0, 0xd48cfc, 0,
      0x140090, 0, 0x331aa3, 0, 0x4e32b5, 0, 0x6848c6, 0,
      0x7f5cd5, 0, 0x956fe3, 0, 0xa980f0, 0, 0xbc90fc, 0,
      0x000094, 0, 0x181aa7, 0, 0x2d32b8, 0, 0x4248c8, 0,
      0x545cd6, 0, 0x656fe4, 0, 0x7580f0, 0, 0x8490fc, 0,
      0x001c88, 0, 0x183b9d, 0, 0x2d57b0, 0, 0x4272c2, 0,
      0x548ad2, 0, 0x65a0e1, 0, 0x75b5ef, 0, 0x84c8fc, 0,
      0x003064, 0, 0x185080, 0, 0x2d6d98, 0, 0x4288b0, 0,
      0x54a0c5, 0, 0x65b7d9, 0, 0x75cceb, 0, 0x84e0fc, 0,
      0x004030, 0, 0x18624e, 0, 0x2d8169, 0, 0x429e82, 0,
      0x54b899, 0, 0x65d1ae, 0, 0x75e7c2, 0, 0x84fcd4, 0,
      0x004400, 0, 0x1a661a, 0, 0x328432, 0, 0x48a048, 0,
      0x5cba5c, 0, 0x6fd26f, 0, 0x80e880, 0, 0x90fc90, 0,
      0x143c00, 0, 0x355f18, 0, 0x527e2d, 0, 0x6e9c42, 0,
      0x87b754, 0, 0x9ed065, 0, 0xb4e775, 0, 0xc8fc84, 0,
      0x303800, 0, 0x505916, 0, 0x6d762b, 0, 0x88923e, 0,
      0xa0ab4f, 0, 0xb7c25f, 0, 0xccd86e, 0, 0xe0ec7c, 0,
      0x482c00, 0, 0x694d14, 0, 0x866a26, 0, 0xa28638, 0,
      0xbb9f47, 0, 0xd2b656, 0, 0xe8cc63, 0, 0xfce070, 0]"

text \<open>\<^verbatim>\<open>rgb >> 16\<close>, \<^verbatim>\<open>(rgb >> 8) & 0xFF\<close> and \<^verbatim>\<open>rgb & 0xFF\<close> of the table entry.\<close>

definition PixelToRGB :: "8 word \<Rightarrow> int \<times> int \<times> int" where
  "PixelToRGB pixel =
     (let rgb = ntsc_to_rgb ! unat pixel
      in (rgb div 65536, (rgb div 256) mod 256, rgb mod 256))"

text \<open>
  The conversion of a \<^verbatim>\<open>double\<close> to an integer type drops the fraction (towards zero);
  to \<^verbatim>\<open>uint8_t\<close> it is undefined when the whole part is not a value of the type.
\<close>

definition truncate :: "real \<Rightarrow> int" where
  "truncate x = (if 0 \<le> x then \<lfloor>x\<rfloor> else - \<lfloor>- x\<rfloor>)"

definition to_uint8 :: "real \<Rightarrow> error + 8 word" where
  "to_uint8 x =
     (let n = truncate x
      in if 0 \<le> n \<and> n < 256 then Inr (word_of_int n) else Inl UndefinedBehaviour)"

text \<open>
  \<^verbatim>\<open>return rgb[0] * 0.21 + rgb[1] * 0.72 + rgb[2] * 0.07;\<close> after the three checks, the
  result converted to \<^verbatim>\<open>uint8_t\<close>.
\<close>

definition RGBToGrayscale :: "int \<times> int \<times> int \<Rightarrow> error + 8 word" where
  "RGBToGrayscale rgb =
     (case rgb of (r, g, b) \<Rightarrow>
        if \<not> (r \<ge> 0 \<and> r \<le> 255) then Inl CheckFailed
        else if \<not> (g \<ge> 0 \<and> g \<le> 255) then Inl CheckFailed
        else if \<not> (b \<ge> 0 \<and> b \<le> 255) then Inl CheckFailed
        else to_uint8 (of_int r * (21 / 100) + of_int g * (72 / 100) + of_int b * (7 / 100)))"

definition PixelToGrayscale :: "8 word \<Rightarrow> error + 8 word" where
  "PixelToGrayscale pixel = RGBToGrayscale (PixelToRGB pixel)"

text \<open>
  The share of a source column (or row) \<open>x\<close> in the destination pixel \<open>j\<close>, with the
  \<^verbatim>\<open>assert\<close> that it lies between 0 and 1.
\<close>

definition ratio_in_resulting_pixel :: "int \<Rightarrow> int \<Rightarrow> int \<Rightarrow> int \<Rightarrow> int \<Rightarrow> real \<Rightarrow> error + real" where
  "ratio_in_resulting_pixel x first_x last_x j start ratio =
     (let r = (if x = first_x then of_int x + 1 - of_int j * ratio - of_int start
               else if x = last_x then ratio * (of_int j + 1) - of_int x + of_int start
               else 1)
      in if r \<ge> 0 \<and> r \<le> 1 then Inr r else Inl CheckFailed)"

text \<open>\<^verbatim>\<open>raw_pixels[idx]\<close>: undefined outside the array.\<close>

definition raw_pixel :: "ALEScreen \<Rightarrow> int \<Rightarrow> error + 8 word" where
  "raw_pixel raw_screen idx =
     (if 0 \<le> idx \<and> idx < int (length (getArray raw_screen))
      then Inr (getArray raw_screen ! nat idx)
      else Inl UndefinedBehaviour)"

text \<open>
  The body of the loop over \<open>y\<close>:
  \<^verbatim>\<open>resulting_color += (x_ratio_in_resulting_pixel / x_ratio) * (y_ratio_in_resulting_pixel / y_ratio) * grayscale\<close>,
  where \<^verbatim>\<open>resulting_color\<close> is a \<^verbatim>\<open>uint8_t\<close>: the sum is converted back after every
  source pixel.
\<close>

definition add_source_pixel ::
  "ALEScreen \<Rightarrow> real \<Rightarrow> real \<Rightarrow> int \<Rightarrow> int \<Rightarrow> int \<Rightarrow> int \<Rightarrow> real \<Rightarrow> int \<Rightarrow> int \<Rightarrow>
   8 word \<Rightarrow> error + 8 word" where
  "add_source_pixel raw_screen x_ratio y_ratio i first_y last_y start_y
       x_ratio_in_resulting_pixel x y resulting_color =
     (case ratio_in_resulting_pixel y first_y last_y i start_y y_ratio of
        Inl e \<Rightarrow> Inl e
      | Inr y_ratio_in_resulting_pixel \<Rightarrow>
          (case raw_pixel raw_screen (y * width raw_screen + x) of
             Inl e \<Rightarrow> Inl e
           | Inr pixel \<Rightarrow>
               (case PixelToGrayscale pixel of
                  Inl e \<Rightarrow> Inl e
                | Inr grayscale \<Rightarrow>
                    to_uint8 (of_int (uint resulting_color)
                      + (x_ratio_in_resulting_pixel / x_ratio)
                        * (y_ratio_in_resulting_pixel / y_ratio)
                        * of_int (uint grayscale)))))"

text \<open>The body of the loop over \<open>x\<close>.\<close>

definition add_source_column ::
  "ALEScreen \<Rightarrow> real \<Rightarrow> real \<Rightarrow> int \<Rightarrow> int \<Rightarrow> int \<Rightarrow> int \<Rightarrow> int \<Rightarrow> int \<Rightarrow> int \<Rightarrow> int \<Rightarrow>
   int \<Rightarrow> 8 word \<Rightarrow> error + 8 word" where
  "add_source_column raw_screen x_ratio y_ratio i j first_x last_x start_x first_y last_y start_y
       x resulting_color =
     (case ratio_in_resulting_pixel x first_x last_x j start_x x_ratio of
        Inl e \<Rightarrow> Inl e
      | Inr x_ratio_in_resulting_pixel \<Rightarrow>
          fold_err (add_source_pixel raw_screen x_ratio y_ratio i first_y last_y start_y
                      x_ratio_in_resulting_pixel x)
            [first_y..last_y] resulting_color)"

text \<open>The destination pixel of row \<open>i\<close> and column \<open>j\<close>, from \<^verbatim>\<open>resulting_color = 0.0\<close>.\<close>

definition resulting_pixel :: "ALEScreen \<Rightarrow> int \<Rightarrow> int \<Rightarrow> error + 8 word" where
  "resulting_pixel raw_screen i j =
     (let raw_screen_width = width raw_screen;
          raw_screen_height = height raw_screen;
          cropped_screen_height = truncate ((85 / 100) * of_int raw_screen_height);
          start_y = raw_screen_height - cropped_screen_height;
          start_x = 8;
          cropped_screen_width = raw_screen_width - start_x;
          x_ratio = (of_int cropped_screen_width :: real) / of_nat kCroppedFrameSize;
          y_ratio = (of_int cropped_screen_height :: real) / of_nat kCroppedFrameSize;
          first_x = start_x + \<lfloor>of_int j * x_ratio\<rfloor>;
          last_x = start_x + \<lfloor>(of_int j + 1) * x_ratio\<rfloor>;
          first_y = start_y + \<lfloor>of_int i * y_ratio\<rfloor>;
          last_y = start_y + \<lfloor>(of_int i + 1) * y_ratio\<rfloor>
      in fold_err (add_source_column raw_screen x_ratio y_ratio i j first_x last_x start_x
                     first_y last_y start_y)
           [first_x..last_x] 0)"

text \<open>\<^verbatim>\<open>PreprocessScreen\<close>: the check on the dimensions and the 84 by 84 pixels, row by row.\<close>

definition PreprocessScreen :: "ALEScreen \<Rightarrow> error + FrameData" where
  "PreprocessScreen raw_screen =
     (if \<not> height raw_screen > width raw_screen then Inl CheckFailed
      else transform (\<lambda>k. resulting_pixel raw_screen (int (k div kCroppedFrameSize))
                             (int (k mod kCroppedFrameSize)))
             [0..<kCroppedFrameDataSize])"

section \<open>Properties of the frame preprocessor\<close>

text \<open>A screen of 160 by 210 pixels of one colour.\<close>

definition uniform_screen :: "8 word \<Rightarrow> ALEScreen" where
  "uniform_screen pixel = \<lparr>width = 160, height = 210, getArray = replicate (160 * 210) pixel\<rparr>"

lemma PixelToGrayscale_4: "PixelToGrayscale 4 = Inr 111"
  by (simp add: PixelToGrayscale_def PixelToRGB_def ntsc_to_rgb_def RGBToGrayscale_def
      to_uint8_def truncate_def)

lemmas resample_defs = resulting_pixel_def add_source_column_def add_source_pixel_def
  ratio_in_resulting_pixel_def raw_pixel_def uniform_screen_def kCroppedFrameSize_def
  to_uint8_def truncate_def Let_def

text \<open>
  C7 (the code departs from the claim). On the screen whose every pixel is the colour 4,
  of grayscale 111, the destination pixel (0, 0) is 107 and its neighbour (0, 1) is
  105: the frame is neither uniform nor equal to the grayscale of the colour, because
  the running sum is cut to a whole number after every source pixel. For the last
  destination row the loop over \<open>y\<close> reaches the row below the screen and reads outside
  the array.
\<close>

theorem PreprocessScreen_uniform_screen:
  "PixelToGrayscale 4 = Inr 111
   \<and> resulting_pixel (uniform_screen 4) 0 0 = Inr 107
   \<and> resulting_pixel (uniform_screen 4) 0 1 = Inr 105
   \<and> resulting_pixel (uniform_screen 4) 83 0 = Inl UndefinedBehaviour"
  by (simp add: resample_defs PixelToGrayscale_4 upto.simps)

end
